theory Spec2Isabelle
  imports Main
begin

section \<open>Strings, bytes and runes\<close>

text \<open>
  A Go \<^verbatim>\<open>string\<close> is a sequence of bytes: it is modelled as \<^typ>\<open>string\<close>, one
  \<^typ>\<open>char\<close> per byte, so \<^const>\<open>length\<close> is Go's \<^verbatim>\<open>len\<close>. A \<^verbatim>\<open>rune\<close> is a
  signed 32-bit code point; every rune the program computes is in range, so it is
  modelled as an \<^typ>\<open>int\<close>.
\<close>

type_synonym rune = int

definition byte :: "char \<Rightarrow> rune" where
  "byte c = of_char c"

definition HasPrefix :: "string \<Rightarrow> string \<Rightarrow> bool" where
  "HasPrefix s p = (take (length p) s = p)"

definition TrimPrefix :: "string \<Rightarrow> string \<Rightarrow> string" where
  "TrimPrefix s p = (if HasPrefix s p then drop (length p) s else s)"

text \<open>
  \<^verbatim>\<open>utf8.DecodeRuneInString\<close> on a non-empty string, given as its first byte and the
  rest: the rune, and how many of the following bytes belong to it. A byte that starts
  no well-formed sequence decodes to \<^verbatim>\<open>utf8.RuneError\<close> (U+FFFD) and stands alone.
\<close>

definition RuneError :: rune where
  "RuneError = 0xFFFD"

definition cont :: "rune \<Rightarrow> rune \<Rightarrow> char \<Rightarrow> bool" where
  "cont lo hi c = (lo \<le> byte c \<and> byte c \<le> hi)"

fun decodeRune :: "char \<Rightarrow> string \<Rightarrow> rune \<times> nat" where
  "decodeRune c0 s =
     (let s0 = byte c0 in
      if s0 < 0x80 then (s0, 0)
      else if s0 < 0xC2 then (RuneError, 0)
      else if s0 < 0xE0 then
        (case s of
           c1 # _ \<Rightarrow>
             if cont 0x80 0xBF c1 then ((s0 - 0xC0) * 64 + (byte c1 - 0x80), 1)
             else (RuneError, 0)
         | _ \<Rightarrow> (RuneError, 0))
      else if s0 < 0xF0 then
        (case s of
           c1 # c2 # _ \<Rightarrow>
             if cont (if s0 = 0xE0 then 0xA0 else 0x80) (if s0 = 0xED then 0x9F else 0xBF) c1
                \<and> cont 0x80 0xBF c2
             then ((s0 - 0xE0) * 4096 + (byte c1 - 0x80) * 64 + (byte c2 - 0x80), 2)
             else (RuneError, 0)
         | _ \<Rightarrow> (RuneError, 0))
      else if s0 < 0xF5 then
        (case s of
           c1 # c2 # c3 # _ \<Rightarrow>
             if cont (if s0 = 0xF0 then 0x90 else 0x80) (if s0 = 0xF4 then 0x8F else 0xBF) c1
                \<and> cont 0x80 0xBF c2 \<and> cont 0x80 0xBF c3
             then ((s0 - 0xF0) * 262144 + (byte c1 - 0x80) * 4096
                     + (byte c2 - 0x80) * 64 + (byte c3 - 0x80), 3)
             else (RuneError, 0)
         | _ \<Rightarrow> (RuneError, 0))
      else (RuneError, 0))"

text \<open>The conversion \<^verbatim>\<open>[]rune(s)\<close>: the runes of \<open>s\<close>, decoded one after the other.\<close>

fun runes :: "string \<Rightarrow> rune list" where
  "runes [] = []"
| "runes (c # s) = (case decodeRune c s of (r, n) \<Rightarrow> r # runes (drop n s))"

text \<open>
  The conversion \<^verbatim>\<open>string(r)\<close> of a rune: its UTF-8 encoding, and the encoding of
  U+FFFD for a value that is no code point (negative, a surrogate, above U+10FFFF).
\<close>

definition runeToString :: "rune \<Rightarrow> string" where
  "runeToString r =
     (if r < 0 \<or> 0x10FFFF < r \<or> (0xD800 \<le> r \<and> r \<le> 0xDFFF)
      then [char_of (0xEF :: int), char_of (0xBF :: int), char_of (0xBD :: int)]
      else if r < 0x80 then [char_of r]
      else if r < 0x800 then [char_of (0xC0 + r div 64), char_of (0x80 + r mod 64)]
      else if r < 0x10000 then
        [char_of (0xE0 + r div 4096), char_of (0x80 + (r div 64) mod 64),
         char_of (0x80 + r mod 64)]
      else
        [char_of (0xF0 + r div 262144), char_of (0x80 + (r div 4096) mod 64),
         char_of (0x80 + (r div 64) mod 64), char_of (0x80 + r mod 64)])"

section \<open>The context model and the registry\<close>

text \<open>
  The structs \<^verbatim>\<open>Flag\<close>, \<^verbatim>\<open>PluginContext\<close>, \<^verbatim>\<open>PluginRegistry\<close> and \<^verbatim>\<open>ParseResult\<close>.
  A context owns its sub-contexts, so \<^verbatim>\<open>PluginContext\<close> is a recursive datatype.
  A Go map is an association list that is read with \<^const>\<open>map_of\<close>; the order of the
  list stands for the order in which \<^verbatim>\<open>range\<close> visits the map, which Go leaves open.
  The fields \<^verbatim>\<open>Description\<close> of a context and \<^verbatim>\<open>Context\<close>, \<^verbatim>\<open>Flags\<close> of a parse
  result are renamed, since a field name is one constant.
\<close>

record Flag =
  Short :: rune
  Long :: string
  ArgName :: string
  Description :: string

datatype PluginContext = PluginContext
  (Context: rune)
  (ContextLong: string)
  (CtxDescription: string)
  (Script: string)
  (Flags: "Flag list")
  (SubContexts: "(rune \<times> PluginContext) list")

record PluginRegistry =
  contexts :: "(rune \<times> PluginContext) list"

record ParseResult =
  ContextPath :: "rune list"
  ResultContext :: "PluginContext option"
  ResultFlags :: "string \<rightharpoonup> string"
  Args :: "string list"
  ShowHelp :: bool

datatype error =
    AlreadyRegistered rune string string
  | UnknownLongFlag string
  | UnknownContext rune
  | UnknownFlag rune
  | RequiresArgument rune

definition NewPluginRegistry :: PluginRegistry where
  "NewPluginRegistry = \<lparr>contexts = []\<rparr>"

text \<open>
  \<^verbatim>\<open>Register\<close> returns the registry it leaves behind and the error, if any. The
  assignment \<^verbatim>\<open>r.contexts[ctx.Context] = ctx\<close> is reached only when the key is absent,
  so it adds one entry.
\<close>

definition Register :: "PluginRegistry \<Rightarrow> PluginContext \<Rightarrow> PluginRegistry \<times> error option" where
  "Register r ctx =
     (case map_of (contexts r) (Context ctx) of
        Some existing \<Rightarrow>
          if Script existing = Script ctx then (r, None)
          else (r, Some (AlreadyRegistered (Context ctx) (Script existing) (Script ctx)))
      | None \<Rightarrow> (r\<lparr>contexts := contexts r @ [(Context ctx, ctx)]\<rparr>, None))"

text \<open>The loop of \<^verbatim>\<open>Lookup\<close> over \<^verbatim>\<open>contextPath[1:]\<close>, from the node reached so far.\<close>

fun Lookup_loop :: "PluginContext \<Rightarrow> rune list \<Rightarrow> PluginContext option" where
  "Lookup_loop ctx [] = Some ctx"
| "Lookup_loop ctx (c # cs) =
     (case map_of (SubContexts ctx) c of
        None \<Rightarrow> None
      | Some subCtx \<Rightarrow> Lookup_loop subCtx cs)"

definition Lookup :: "PluginRegistry \<Rightarrow> rune list \<Rightarrow> PluginContext option" where
  "Lookup r contextPath =
     (case contextPath of
        [] \<Rightarrow> None
      | c # cs \<Rightarrow>
          (case map_of (contexts r) c of
             None \<Rightarrow> None
           | Some ctx \<Rightarrow> Lookup_loop ctx cs))"

section \<open>The argument resolution engine\<close>

text \<open>
  Both flag branches of \<^verbatim>\<open>Parse\<close> start with the same statement: with no current
  context, the cursor becomes the root context \<^verbatim>\<open>S\<close> when there is one, and the result
  then points to it.
\<close>

definition defaultShell ::
  "PluginRegistry \<Rightarrow> PluginContext option \<Rightarrow> ParseResult \<Rightarrow> PluginContext option \<times> ParseResult" where
  "defaultShell r currentCtx result =
     (case currentCtx of
        Some ctx \<Rightarrow> (currentCtx, result)
      | None \<Rightarrow>
          (case Lookup r [byte CHR ''S''] of
             None \<Rightarrow> (None, result)
           | Some shell \<Rightarrow> (Some shell, result\<lparr>ResultContext := Some shell\<rparr>)))"

text \<open>
  \<^verbatim>\<open>matchLongFlag\<close>: whether a flag matched, the next index, and the result it has
  written to. The first flag of the context with the long name decides.
\<close>

fun matchLongFlag_loop ::
  "Flag list \<Rightarrow> string \<Rightarrow> ParseResult \<Rightarrow> string list \<Rightarrow> nat \<Rightarrow> bool \<times> nat \<times> ParseResult" where
  "matchLongFlag_loop [] flagName result args i = (False, i, result)"
| "matchLongFlag_loop (flag # flags) flagName result args i =
     (if Long flag = flagName then
        (if ArgName flag \<noteq> [] then
           (if i + 1 < length args
            then (True, i + 2,
                  result\<lparr>ResultFlags := (ResultFlags result)(Long flag \<mapsto> args ! (i + 1))\<rparr>)
            else (False, i, result))
         else (True, i + 1, result\<lparr>ResultFlags := (ResultFlags result)(Long flag \<mapsto> ''true'')\<rparr>))
      else matchLongFlag_loop flags flagName result args i)"

definition matchLongFlag ::
  "string \<Rightarrow> PluginContext option \<Rightarrow> ParseResult \<Rightarrow> string list \<Rightarrow> nat \<Rightarrow> bool \<times> nat \<times> ParseResult" where
  "matchLongFlag flagName ctx result args i =
     (case ctx of
        None \<Rightarrow> (False, i, result)
      | Some c \<Rightarrow> matchLongFlag_loop (Flags c) flagName result args i)"

text \<open>
  \<^verbatim>\<open>findContextByLong\<close>: the sub-contexts of the current context first, then the
  roots; in each map, the first node that \<^verbatim>\<open>range\<close> visits with that long name.
\<close>

definition findContextByLong ::
  "PluginRegistry \<Rightarrow> string \<Rightarrow> PluginContext option \<Rightarrow> PluginContext option" where
  "findContextByLong r longName currentCtx =
     (case (case currentCtx of
              None \<Rightarrow> None
            | Some c \<Rightarrow> find (\<lambda>subCtx. ContextLong subCtx = longName) (map snd (SubContexts c))) of
        Some subCtx \<Rightarrow> Some subCtx
      | None \<Rightarrow> find (\<lambda>ctx. ContextLong ctx = longName) (map snd (contexts r)))"

definition findFlagInContext :: "rune \<Rightarrow> PluginContext option \<Rightarrow> Flag option" where
  "findFlagInContext ch ctx =
     (case ctx of
        None \<Rightarrow> None
      | Some c \<Rightarrow> find (\<lambda>flag. Short flag = ch) (Flags c))"

text \<open>
  The loop of \<^verbatim>\<open>Parse\<close> over the characters of one short-flag cluster, from index
  \<open>flagIdx\<close>. It returns the error that aborts the parse, or the cursor, the result and
  the index \<open>i\<close> it leaves: \<open>i\<close> has moved on by one when the last flag took the next
  token as its value.
\<close>

function cluster_loop ::
  "PluginRegistry \<Rightarrow> string list \<Rightarrow> nat \<Rightarrow> rune list \<Rightarrow> nat \<Rightarrow> PluginContext option \<Rightarrow> ParseResult
     \<Rightarrow> error + (PluginContext option \<times> ParseResult \<times> nat)" where
  "cluster_loop r args i flags flagIdx currentCtx result =
     (if flagIdx < length flags then
        (let ch = flags ! flagIdx in
         if ch = byte CHR ''h'' then
           cluster_loop r args i flags (flagIdx + 1) currentCtx (result\<lparr>ShowHelp := True\<rparr>)
         else if byte CHR ''A'' \<le> ch \<and> ch \<le> byte CHR ''Z'' then
           (case (case currentCtx of
                    None \<Rightarrow> None
                  | Some c \<Rightarrow> map_of (SubContexts c) ch) of
              Some subCtx \<Rightarrow>
                cluster_loop r args i flags (flagIdx + 1) (Some subCtx)
                  (result\<lparr>ContextPath := ContextPath result @ [ch], ResultContext := Some subCtx\<rparr>)
            | None \<Rightarrow>
                (case Lookup r [ch] of
                   Some ctx \<Rightarrow>
                     cluster_loop r args i flags (flagIdx + 1) (Some ctx)
                       (result\<lparr>ContextPath := [ch], ResultContext := Some ctx\<rparr>)
                 | None \<Rightarrow> Inl (UnknownContext ch)))
         else
           (case defaultShell r currentCtx result of
              (currentCtx', result') \<Rightarrow>
                (case findFlagInContext ch currentCtx' of
                   None \<Rightarrow> Inl (UnknownFlag ch)
                 | Some flag \<Rightarrow>
                     (let key = (if Long flag = [] then runeToString (Short flag) else Long flag) in
                      if ArgName flag \<noteq> [] then
                        (if flagIdx < length flags - 1 then Inl (RequiresArgument ch)
                         else if i + 1 < length args then
                           Inr (currentCtx',
                                result'\<lparr>ResultFlags := (ResultFlags result')(key \<mapsto> args ! (i + 1))\<rparr>,
                                i + 1)
                         else Inl (RequiresArgument ch))
                      else
                        cluster_loop r args i flags (flagIdx + 1) currentCtx'
                          (result'\<lparr>ResultFlags := (ResultFlags result')(key \<mapsto> ''true'')\<rparr>)))))
      else Inr (currentCtx, result, i))"
  by pat_completeness auto
termination
  by (relation "measure (\<lambda>(r, args, i, flags, flagIdx, currentCtx, result). length flags - flagIdx)")
     auto

declare cluster_loop.simps [simp del]

lemma cluster_loop_index:
  "cluster_loop r args i flags flagIdx currentCtx result = Inr (currentCtx', result', i')
   \<Longrightarrow> i \<le> i'"
proof (induction "length flags - flagIdx" arbitrary: flagIdx currentCtx result)
  case 0
  then show ?case
    by (subst (asm) cluster_loop.simps) simp
next
  case (Suc k)
  from Suc.hyps(2) have lt: "flagIdx < length flags" and k: "k = length flags - Suc flagIdx"
    by arith+
  note IH = Suc.hyps(1) [OF k]
  from Suc.prems show ?case
    by (subst (asm) cluster_loop.simps)
       (auto simp: lt Let_def split: if_splits option.splits prod.splits dest: IH)
qed

lemma matchLongFlag_loop_index:
  "matchLongFlag_loop flags flagName result args i = (True, nextI, result') \<Longrightarrow> i < nextI"
  by (induction flags) (auto split: if_splits)

lemma matchLongFlag_index:
  "matchLongFlag flagName ctx result args i = (True, nextI, result') \<Longrightarrow> i < nextI"
  by (auto simp: matchLongFlag_def split: option.splits dest: matchLongFlag_loop_index)

text \<open>
  The main loop of \<^verbatim>\<open>Parse\<close>, from index \<open>i\<close>, and \<^verbatim>\<open>Parse\<close> itself. An error return
  carries no result.
\<close>

function Parse_loop ::
  "PluginRegistry \<Rightarrow> string list \<Rightarrow> nat \<Rightarrow> PluginContext option \<Rightarrow> ParseResult \<Rightarrow> error + ParseResult" where
  "Parse_loop r args i currentCtx result =
     (if i < length args then
        (let arg = args ! i in
         if HasPrefix arg ''--'' then
           (let flagName = TrimPrefix arg ''--'' in
            if flagName = ''help'' then
              Parse_loop r args (i + 1) currentCtx (result\<lparr>ShowHelp := True\<rparr>)
            else
              (case defaultShell r currentCtx result of
                 (currentCtx', result') \<Rightarrow>
                   (case matchLongFlag flagName currentCtx' result' args i of
                      (matched, nextI, result'') \<Rightarrow>
                        if matched then Parse_loop r args nextI currentCtx' result''
                        else
                          (case findContextByLong r flagName currentCtx' of
                             Some ctx \<Rightarrow>
                               Parse_loop r args (i + 1) (Some ctx)
                                 (result''\<lparr>ContextPath := ContextPath result'' @ [Context ctx],
                                            ResultContext := Some ctx\<rparr>)
                           | None \<Rightarrow> Inl (UnknownLongFlag flagName)))))
         else if HasPrefix arg ''-'' \<and> length arg > 1 then
           (case cluster_loop r args i (runes (drop 1 arg)) 0 currentCtx result of
              Inl err \<Rightarrow> Inl err
            | Inr (currentCtx', result', i') \<Rightarrow> Parse_loop r args (i' + 1) currentCtx' result')
         else Parse_loop r args (i + 1) currentCtx (result\<lparr>Args := Args result @ [arg]\<rparr>))
      else Inr result)"
  by pat_completeness auto
termination
proof (relation "measure (\<lambda>(r, args, i, currentCtx, result). length args - i)", goal_cases)
  case 1
  show ?case by simp
next
  case 2
  then show ?case by simp
next
  case 3
  then show ?case by (auto dest!: sym [THEN matchLongFlag_index])
next
  case 4
  then show ?case by simp
next
  case 5
  then show ?case by (auto dest!: cluster_loop_index)
next
  case 6
  then show ?case by simp
qed

declare Parse_loop.simps [simp del]

definition Parse :: "PluginRegistry \<Rightarrow> string list \<Rightarrow> error + ParseResult" where
  "Parse r args =
     (let result = \<lparr>ContextPath = [], ResultContext = None, ResultFlags = Map.empty,
                    Args = [], ShowHelp = False\<rparr> in
      if length args = 0 then Inr result
      else Parse_loop r args 0 None result)"

section \<open>A registry to evaluate on\<close>

text \<open>
  The registry of the scenario: the root \<^verbatim>\<open>T\<close> (\<^verbatim>\<open>time\<close>) with the boolean flag
  \<^verbatim>\<open>-o/--offline\<close> and the flag \<^verbatim>\<open>-f/--from <days>\<close>, and under it the sub-context \<^verbatim>\<open>O\<close>
  (\<^verbatim>\<open>overtime\<close>) with the flag \<^verbatim>\<open>-s/--start <time>\<close>.
\<close>

definition overtimeCtx :: PluginContext where
  "overtimeCtx = PluginContext (byte CHR ''O'') ''overtime'' [] ''./plugins/time.sh''
     [\<lparr>Short = byte CHR ''s'', Long = ''start'', ArgName = ''time'', Description = ''Start time''\<rparr>] []"

definition timeCtx :: PluginContext where
  "timeCtx = PluginContext (byte CHR ''T'') ''time'' [] ''./plugins/time.sh''
     [\<lparr>Short = byte CHR ''o'', Long = ''offline'', ArgName = [], Description = ''Offline mode''\<rparr>,
      \<lparr>Short = byte CHR ''f'', Long = ''from'', ArgName = ''days'', Description = ''Days ago''\<rparr>]
     [(byte CHR ''O'', overtimeCtx)]"

definition timeRegistry :: PluginRegistry where
  "timeRegistry = fst (Register NewPluginRegistry timeCtx)"

lemma timeRegistry_contexts: "contexts timeRegistry = [(byte CHR ''T'', timeCtx)]"
  by (simp add: timeRegistry_def Register_def NewPluginRegistry_def timeCtx_def)

section \<open>Lookup\<close>

lemma Lookup_loop_append:
  "Lookup_loop ctx (p @ q) = (case Lookup_loop ctx p of None \<Rightarrow> None | Some n \<Rightarrow> Lookup_loop n q)"
  by (induction p arbitrary: ctx) (auto split: option.splits)

text \<open>
  C5. \<^verbatim>\<open>Lookup\<close> of the empty path finds nothing. A path whose first letter is no
  root finds nothing; a path with an unresolved segment finds nothing, whatever follows
  the segment, and never the node of the part that did resolve. Otherwise the result is
  the node reached from the root map through the sub-context maps, letter by letter.
\<close>

theorem Lookup_resolves:
  "Lookup r [] = None
   \<and> (map_of (contexts r) c = None \<longrightarrow> Lookup r (c # cs) = None)
   \<and> (Lookup r (c # p) = None \<longrightarrow> Lookup r (c # p @ q) = None)
   \<and> (Lookup r (c # p) = Some n \<longrightarrow> map_of (SubContexts n) d = None
        \<longrightarrow> Lookup r (c # p @ d # q) = None)
   \<and> Lookup r [c] = map_of (contexts r) c
   \<and> Lookup r (c # p @ [d]) =
       (case Lookup r (c # p) of None \<Rightarrow> None | Some n \<Rightarrow> map_of (SubContexts n) d)"
  by (auto simp: Lookup_def Lookup_loop_append split: option.splits)

theorem Lookup_resolves_witness:
  "Lookup timeRegistry [] = None
   \<and> Lookup timeRegistry [byte CHR ''X'', byte CHR ''O''] = None
   \<and> Lookup timeRegistry [byte CHR ''T'', byte CHR ''X'', byte CHR ''O''] = None
   \<and> Lookup timeRegistry [byte CHR ''T''] = Some timeCtx
   \<and> Lookup timeRegistry [byte CHR ''T'', byte CHR ''O''] = Some overtimeCtx"
  using Lookup_resolves [of timeRegistry "byte CHR ''X''" "[byte CHR ''O'']" "[]" "[]" timeCtx "byte CHR ''O''"]
        Lookup_resolves [of timeRegistry "byte CHR ''T''" "[]" "[]" "[byte CHR ''O'']" timeCtx "byte CHR ''X''"]
        Lookup_resolves [of timeRegistry "byte CHR ''T''" "[]" "[]" "[]" timeCtx "byte CHR ''O''"]
  by (simp add: timeRegistry_contexts timeCtx_def byte_def)

section \<open>Register\<close>

text \<open>
  A Go map holds one entry for a key: the association list of a registry has no key
  twice. The empty registry is so, and \<^verbatim>\<open>Register\<close> keeps it so.
\<close>

lemma filter_key_absent:
  "map_of xs k = None \<Longrightarrow> filter (\<lambda>e. fst e = k) xs = []"
  by (induction xs) (auto split: if_splits)

lemma filter_key_present:
  "distinct (map fst xs) \<Longrightarrow> map_of xs k = Some v
   \<Longrightarrow> length (filter (\<lambda>e. fst e = k) xs) = 1"
proof (induction xs)
  case Nil
  then show ?case by simp
next
  case (Cons x xs)
  show ?case
  proof (cases "fst x = k")
    case True
    with Cons.prems(1) have "map_of xs k = None"
      by (cases x) (auto simp: map_of_eq_None_iff)
    with True show ?thesis
      by (simp add: filter_key_absent)
  next
    case False
    with Cons show ?thesis
      by (cases x) auto
  qed
qed

text \<open>
  C4. From any registry, when the letter is free or bound to a node with the same script,
  \<^verbatim>\<open>Register\<close> returns no error, a second \<^verbatim>\<open>Register\<close> with the same letter and script
  returns no error and changes nothing, and one entry is bound to the letter. When the
  letter is bound to a node with another script, \<^verbatim>\<open>Register\<close> returns the error, the
  registry is the one it was, and the letter still finds the first node.
\<close>

theorem Register_idempotent_conflict:
  assumes "distinct (map fst (contexts r))"
  shows "((case map_of (contexts r) (Context ctx) of None \<Rightarrow> True
           | Some existing \<Rightarrow> Script existing = Script ctx)
          \<longrightarrow> Context ctx' = Context ctx \<longrightarrow> Script ctx' = Script ctx
          \<longrightarrow> snd (Register r ctx) = None
              \<and> Register (fst (Register r ctx)) ctx' = (fst (Register r ctx), None)
              \<and> length (filter (\<lambda>e. fst e = Context ctx) (contexts (fst (Register r ctx)))) = 1
              \<and> distinct (map fst (contexts (fst (Register r ctx)))))
       \<and> (map_of (contexts r) (Context ctx) = Some existing \<longrightarrow> Script existing \<noteq> Script ctx
          \<longrightarrow> Register r ctx
                = (r, Some (AlreadyRegistered (Context ctx) (Script existing) (Script ctx)))
              \<and> Lookup (fst (Register r ctx)) [Context ctx] = Some existing)"
proof (cases "map_of (contexts r) (Context ctx)")
  case None
  then have "Context ctx \<notin> fst ` set (contexts r)"
    by (simp add: map_of_eq_None_iff)
  with None assms show ?thesis
    by (simp add: Register_def filter_key_absent map_add_def)
next
  case (Some e)
  with assms show ?thesis
    by (auto simp: Register_def Lookup_def filter_key_present)
qed

lemma timeCtx_sel:
  "Context timeCtx = byte CHR ''T''" "Script timeCtx = ''./plugins/time.sh''"
  by (simp_all add: timeCtx_def)

lemma NewPluginRegistry_contexts: "contexts NewPluginRegistry = []"
  by (simp add: NewPluginRegistry_def)

lemma Register_timeCtx: "Register NewPluginRegistry timeCtx = (timeRegistry, None)"
  by (simp add: timeRegistry_def Register_def NewPluginRegistry_def)

theorem Register_idempotent_conflict_witness:
  "Register NewPluginRegistry timeCtx = (timeRegistry, None)
   \<and> Register timeRegistry timeCtx = (timeRegistry, None)
   \<and> length (filter (\<lambda>e. fst e = byte CHR ''T'') (contexts timeRegistry)) = 1
   \<and> Register timeRegistry (PluginContext (byte CHR ''T'') ''test'' [] ''./plugins/test.sh'' [] [])
       = (timeRegistry,
          Some (AlreadyRegistered (byte CHR ''T'') ''./plugins/time.sh'' ''./plugins/test.sh''))
   \<and> Lookup timeRegistry [byte CHR ''T''] = Some timeCtx"
  using Register_idempotent_conflict [of NewPluginRegistry timeCtx timeCtx timeCtx]
        Register_idempotent_conflict [of timeRegistry
          "PluginContext (byte CHR ''T'') ''test'' [] ''./plugins/test.sh'' [] []" timeCtx timeCtx]
  by (auto simp: timeRegistry_contexts Register_timeCtx timeCtx_sel NewPluginRegistry_contexts)

section \<open>Properties of the argument resolution engine\<close>

lemma matchLongFlag_loop_find:
  "matchLongFlag_loop flags flagName result args i =
     (case find (\<lambda>flag. Long flag = flagName) flags of
        None \<Rightarrow> (False, i, result)
      | Some flag \<Rightarrow>
          if ArgName flag \<noteq> [] then
            if i + 1 < length args
            then (True, i + 2,
                  result\<lparr>ResultFlags := (ResultFlags result)(Long flag \<mapsto> args ! (i + 1))\<rparr>)
            else (False, i, result)
          else (True, i + 1, result\<lparr>ResultFlags := (ResultFlags result)(Long flag \<mapsto> ''true'')\<rparr>))"
  by (induction flags) auto

lemma Parse_loop_cluster:
  assumes "i < length args" and "\<not> HasPrefix (args ! i) ''--''"
    and "HasPrefix (args ! i) ''-''" and "1 < length (args ! i)"
  shows "Parse_loop r args i currentCtx result =
     (case cluster_loop r args i (runes (drop 1 (args ! i))) 0 currentCtx result of
        Inl err \<Rightarrow> Inl err
      | Inr (currentCtx', result', i') \<Rightarrow> Parse_loop r args (i' + 1) currentCtx' result')"
  using assms by (subst Parse_loop.simps) (simp add: Let_def)

text \<open>One step of the cluster loop on an uppercase letter.\<close>

lemma cluster_loop_upper:
  assumes "flagIdx < length flags"
    and "byte CHR ''A'' \<le> flags ! flagIdx" and "flags ! flagIdx \<le> byte CHR ''Z''"
  shows "cluster_loop r args i flags flagIdx currentCtx result =
     (case (case currentCtx of None \<Rightarrow> None | Some c \<Rightarrow> map_of (SubContexts c) (flags ! flagIdx)) of
        Some subCtx \<Rightarrow>
          cluster_loop r args i flags (flagIdx + 1) (Some subCtx)
            (result\<lparr>ContextPath := ContextPath result @ [flags ! flagIdx],
                      ResultContext := Some subCtx\<rparr>)
      | None \<Rightarrow>
          (case map_of (contexts r) (flags ! flagIdx) of
             Some ctx \<Rightarrow>
               cluster_loop r args i flags (flagIdx + 1) (Some ctx)
                 (result\<lparr>ContextPath := [flags ! flagIdx], ResultContext := Some ctx\<rparr>)
           | None \<Rightarrow> Inl (UnknownContext (flags ! flagIdx))))"
proof -
  from assms have nh: "flags ! flagIdx \<noteq> byte CHR ''h''"
    by (auto simp: byte_def)
  show ?thesis
    using assms nh
    by (subst cluster_loop.simps) (simp add: Let_def Lookup_def split: option.splits)
qed

text \<open>
  C2. In a short-flag cluster, on an uppercase letter \<open>A\<close> to \<open>Z\<close>: when the letter is
  a sub-context of the cursor, the cursor moves there and the letter is appended to the
  path; when it is not (or there is no cursor) and it is a root context, the cursor moves
  to the root and the path is that one letter, whatever it was; when it is neither, the
  parse aborts with the unknown-context error.
\<close>

theorem cluster_uppercase_switch:
  assumes "flagIdx < length flags" and "ch = flags ! flagIdx"
    and "byte CHR ''A'' \<le> ch" and "ch \<le> byte CHR ''Z''"
  shows "(currentCtx = Some c \<longrightarrow> map_of (SubContexts c) ch = Some subCtx \<longrightarrow>
            cluster_loop r args i flags flagIdx currentCtx result =
            cluster_loop r args i flags (flagIdx + 1) (Some subCtx)
              (result\<lparr>ContextPath := ContextPath result @ [ch], ResultContext := Some subCtx\<rparr>))
       \<and> ((case currentCtx of None \<Rightarrow> None | Some c \<Rightarrow> map_of (SubContexts c) ch) = None
            \<longrightarrow> map_of (contexts r) ch = Some ctx \<longrightarrow>
            cluster_loop r args i flags flagIdx currentCtx result =
            cluster_loop r args i flags (flagIdx + 1) (Some ctx)
              (result\<lparr>ContextPath := [ch], ResultContext := Some ctx\<rparr>))
       \<and> ((case currentCtx of None \<Rightarrow> None | Some c \<Rightarrow> map_of (SubContexts c) ch) = None
            \<longrightarrow> map_of (contexts r) ch = None \<longrightarrow>
            cluster_loop r args i flags flagIdx currentCtx result = Inl (UnknownContext ch))"
proof -
  note step = cluster_loop_upper [OF assms(1) assms(3,4) [unfolded assms(2)], of r args i currentCtx result]
  show ?thesis
    unfolding step assms(2) by simp
qed



lemmas parse_eval =
  Parse_def Parse_loop.simps cluster_loop.simps HasPrefix_def TrimPrefix_def Let_def byte_def
  Lookup_def defaultShell_def findFlagInContext_def matchLongFlag_def findContextByLong_def

definition atTime :: ParseResult where
  "atTime = \<lparr>ContextPath = [byte CHR ''T''], ResultContext = Some timeCtx,
             ResultFlags = Map.empty, Args = [], ShowHelp = False\<rparr>"

theorem cluster_uppercase_switch_witness:
  "cluster_loop timeRegistry [''-TO''] 0 [byte CHR ''T'', byte CHR ''O''] 1 (Some timeCtx) atTime =
     Inr (Some overtimeCtx,
          atTime\<lparr>ContextPath := [byte CHR ''T'', byte CHR ''O''], ResultContext := Some overtimeCtx\<rparr>, 0)
   \<and> cluster_loop timeRegistry [''-OT''] 0 [byte CHR ''O'', byte CHR ''T''] 1 (Some overtimeCtx)
        (atTime\<lparr>ContextPath := [byte CHR ''T'', byte CHR ''O''], ResultContext := Some overtimeCtx\<rparr>) =
     Inr (Some timeCtx, atTime, 0)
   \<and> cluster_loop timeRegistry [''-TX''] 0 [byte CHR ''T'', byte CHR ''X''] 1 (Some timeCtx) atTime =
     Inl (UnknownContext (byte CHR ''X''))
   \<and> Parse timeRegistry [''-TOT''] = Inr atTime
   \<and> Parse timeRegistry [''-X''] = Inl (UnknownContext (byte CHR ''X''))"
  using cluster_uppercase_switch [of 1 "[byte CHR ''T'', byte CHR ''O'']" "byte CHR ''O''"
          "Some timeCtx" timeCtx overtimeCtx timeRegistry "[''-TO'']" 0 atTime timeCtx]
        cluster_uppercase_switch [of 1 "[byte CHR ''O'', byte CHR ''T'']" "byte CHR ''T''"
          "Some overtimeCtx" overtimeCtx overtimeCtx timeRegistry "[''-OT'']" 0
          "atTime\<lparr>ContextPath := [byte CHR ''T'', byte CHR ''O''], ResultContext := Some overtimeCtx\<rparr>"
          timeCtx]
        cluster_uppercase_switch [of 1 "[byte CHR ''T'', byte CHR ''X'']" "byte CHR ''X''"
          "Some timeCtx" timeCtx overtimeCtx timeRegistry "[''-TX'']" 0 atTime timeCtx]
  by (simp add: parse_eval timeRegistry_contexts timeCtx_def overtimeCtx_def atTime_def)


text \<open>One step of the cluster loop on a character that is a flag of the context.\<close>

lemma cluster_loop_flag:
  assumes "flagIdx < length flags" and "flags ! flagIdx \<noteq> byte CHR ''h''"
    and "\<not> (byte CHR ''A'' \<le> flags ! flagIdx \<and> flags ! flagIdx \<le> byte CHR ''Z'')"
    and "defaultShell r currentCtx result = (currentCtx', result')"
    and "findFlagInContext (flags ! flagIdx) currentCtx' = Some flag"
  shows "cluster_loop r args i flags flagIdx currentCtx result =
     (let key = (if Long flag = [] then runeToString (Short flag) else Long flag) in
      if ArgName flag \<noteq> [] then
        (if flagIdx < length flags - 1 then Inl (RequiresArgument (flags ! flagIdx))
         else if i + 1 < length args then
           Inr (currentCtx',
                result'\<lparr>ResultFlags := (ResultFlags result')(key \<mapsto> args ! (i + 1))\<rparr>,
                i + 1)
         else Inl (RequiresArgument (flags ! flagIdx)))
      else
        cluster_loop r args i flags (flagIdx + 1) currentCtx'
          (result'\<lparr>ResultFlags := (ResultFlags result')(key \<mapsto> ''true'')\<rparr>))"
proof -
  from assms(3) have up: "(byte CHR ''A'' \<le> flags ! flagIdx \<and> flags ! flagIdx \<le> byte CHR ''Z'') = False"
    by simp
  show ?thesis
    by (subst cluster_loop.simps) (simp add: Let_def assms(1,2,4,5) up)
qed

text \<open>
  A context whose flags include a value-requiring flag named \<^verbatim>\<open>help\<close>, and two flags
  named \<^verbatim>\<open>mode\<close>, the first of them boolean.
\<close>

definition helpCtx :: PluginContext where
  "helpCtx = PluginContext (byte CHR ''T'') ''time'' [] ''./plugins/time.sh''
     [\<lparr>Short = 0, Long = ''help'', ArgName = ''topic'', Description = ''Help topic''\<rparr>,
      \<lparr>Short = 0, Long = ''mode'', ArgName = [], Description = ''Mode switch''\<rparr>,
      \<lparr>Short = byte CHR ''m'', Long = ''mode'', ArgName = ''name'', Description = ''Mode name''\<rparr>]
     []"

definition helpRegistry :: PluginRegistry where
  "helpRegistry = fst (Register NewPluginRegistry helpCtx)"

lemma helpRegistry_contexts: "contexts helpRegistry = [(byte CHR ''T'', helpCtx)]"
  by (simp add: helpRegistry_def Register_def NewPluginRegistry_def helpCtx_def)

text \<open>
  A root \<^verbatim>\<open>T\<close> that owns the two flags of the scenario, and before them a second flag
  with the short name \<^verbatim>\<open>o\<close>.
\<close>

definition shadowCtx :: PluginContext where
  "shadowCtx = PluginContext (byte CHR ''T'') ''time'' [] ''./plugins/time.sh''
     [\<lparr>Short = byte CHR ''o'', Long = ''other'', ArgName = [], Description = ''Other mode''\<rparr>,
      \<lparr>Short = byte CHR ''o'', Long = ''offline'', ArgName = [], Description = ''Offline mode''\<rparr>,
      \<lparr>Short = byte CHR ''f'', Long = ''from'', ArgName = ''days'', Description = ''Days ago''\<rparr>]
     []"

definition shadowRegistry :: PluginRegistry where
  "shadowRegistry = fst (Register NewPluginRegistry shadowCtx)"

lemma shadowRegistry_contexts: "contexts shadowRegistry = [(byte CHR ''T'', shadowCtx)]"
  by (simp add: shadowRegistry_def Register_def NewPluginRegistry_def shadowCtx_def)

text \<open>
  C1 as stated fails: the cluster resolves \<^verbatim>\<open>o\<close> to the first flag with that short
  name, the long form resolves \<^verbatim>\<open>--offline\<close> to the first flag with that long name, and
  the two flag maps differ.
\<close>

theorem cluster_long_equivalence_counterexample:
  "Parse shadowRegistry [''-Tof'', ''5''] =
     Inr \<lparr>ContextPath = [byte CHR ''T''], ResultContext = Some shadowCtx,
          ResultFlags = [''other'' \<mapsto> ''true'', ''from'' \<mapsto> ''5''], Args = [], ShowHelp = False\<rparr>
   \<and> Parse shadowRegistry [''-T'', ''--offline'', ''--from'', ''5''] =
     Inr \<lparr>ContextPath = [byte CHR ''T''], ResultContext = Some shadowCtx,
          ResultFlags = [''offline'' \<mapsto> ''true'', ''from'' \<mapsto> ''5''], Args = [], ShowHelp = False\<rparr>
   \<and> [''other'' \<mapsto> ''true'', ''from'' \<mapsto> ''5''] ''offline'' = (None :: string option)
   \<and> [''offline'' \<mapsto> ''true'', ''from'' \<mapsto> ''5''] ''offline'' = Some ''true''"
  by (simp add: parse_eval shadowRegistry_contexts shadowCtx_def)

text \<open>
  C1, as amended. In every registry whose root \<^verbatim>\<open>T\<close> resolves \<^verbatim>\<open>o\<close> to a boolean flag
  with the long name \<^verbatim>\<open>offline\<close>, \<^verbatim>\<open>--offline\<close> to a boolean flag, \<^verbatim>\<open>f\<close> to a
  value-requiring flag with the long name \<^verbatim>\<open>from\<close> and \<^verbatim>\<open>--from\<close> to a value-requiring
  flag (each the first of the flags of \<^verbatim>\<open>T\<close> with that name), the cluster form and the
  long form both succeed, with the same flag map and the same, empty, leftover arguments.
\<close>

theorem cluster_long_equivalence:
  assumes "map_of (contexts r) (byte CHR ''T'') = Some ctx"
    and "find (\<lambda>flag. Short flag = byte CHR ''o'') (Flags ctx) = Some o_short"
    and "Long o_short = ''offline''" and "ArgName o_short = []"
    and "find (\<lambda>flag. Long flag = ''offline'') (Flags ctx) = Some o_long"
    and "ArgName o_long = []"
    and "find (\<lambda>flag. Short flag = byte CHR ''f'') (Flags ctx) = Some f_short"
    and "Long f_short = ''from''" and "ArgName f_short \<noteq> []"
    and "find (\<lambda>flag. Long flag = ''from'') (Flags ctx) = Some f_long"
    and "ArgName f_long \<noteq> []"
  shows "Parse r [''-Tof'', ''5''] =
           Inr \<lparr>ContextPath = [byte CHR ''T''], ResultContext = Some ctx,
                ResultFlags = [''offline'' \<mapsto> ''true'', ''from'' \<mapsto> ''5''], Args = [],
                ShowHelp = False\<rparr>
       \<and> Parse r [''-T'', ''--offline'', ''--from'', ''5''] =
           Inr \<lparr>ContextPath = [byte CHR ''T''], ResultContext = Some ctx,
                ResultFlags = [''offline'' \<mapsto> ''true'', ''from'' \<mapsto> ''5''], Args = [],
                ShowHelp = False\<rparr>"
proof -
  from assms(5) have ol: "Long o_long = ''offline''"
    by (auto simp: find_Some_iff)
  from assms(10) have fl: "Long f_long = ''from''"
    by (auto simp: find_Some_iff)
  have T: "map_of (contexts r) 84 = Some ctx" and o: "find (\<lambda>flag. Short flag = 111) (Flags ctx) = Some o_short"
    and f: "find (\<lambda>flag. Short flag = 102) (Flags ctx) = Some f_short"
    using assms(1,2,7) by (simp_all add: byte_def)
  show ?thesis
    by (simp add: parse_eval matchLongFlag_loop_find T o f ol fl assms(3-6,8-11))
qed

theorem cluster_long_equivalence_witness:
  "Parse timeRegistry [''-Tof'', ''5''] = Inr (atTime\<lparr>ResultFlags := [''offline'' \<mapsto> ''true'', ''from'' \<mapsto> ''5'']\<rparr>)
   \<and> Parse timeRegistry [''-T'', ''--offline'', ''--from'', ''5''] =
       Inr (atTime\<lparr>ResultFlags := [''offline'' \<mapsto> ''true'', ''from'' \<mapsto> ''5'']\<rparr>)"
  using cluster_long_equivalence [of timeRegistry timeCtx
          "\<lparr>Short = byte CHR ''o'', Long = ''offline'', ArgName = [], Description = ''Offline mode''\<rparr>"
          "\<lparr>Short = byte CHR ''o'', Long = ''offline'', ArgName = [], Description = ''Offline mode''\<rparr>"
          "\<lparr>Short = byte CHR ''f'', Long = ''from'', ArgName = ''days'', Description = ''Days ago''\<rparr>"
          "\<lparr>Short = byte CHR ''f'', Long = ''from'', ArgName = ''days'', Description = ''Days ago''\<rparr>"]
  by (simp add: timeRegistry_contexts timeCtx_def atTime_def byte_def)

section \<open>The positions that the loops of Parse reach\<close>

text \<open>
  One pass through the body of the main loop of \<^verbatim>\<open>Parse\<close>, from the index \<open>i\<close>: the
  error that aborts the parse, or the index, the cursor and the result with which the
  loop goes on. \<open>Parse_loop_step\<close> below shows that \<open>Parse_loop\<close> is this pass, repeated.
\<close>

definition Parse_step ::
  "PluginRegistry \<Rightarrow> string list \<Rightarrow> nat \<Rightarrow> PluginContext option \<Rightarrow> ParseResult
     \<Rightarrow> error + (nat \<times> PluginContext option \<times> ParseResult)" where
  "Parse_step r args i currentCtx result =
     (let arg = args ! i in
      if HasPrefix arg ''--'' then
        (let flagName = TrimPrefix arg ''--'' in
         if flagName = ''help'' then Inr (i + 1, currentCtx, result\<lparr>ShowHelp := True\<rparr>)
         else
           (case defaultShell r currentCtx result of
              (currentCtx', result') \<Rightarrow>
                (case matchLongFlag flagName currentCtx' result' args i of
                   (matched, nextI, result'') \<Rightarrow>
                     if matched then Inr (nextI, currentCtx', result'')
                     else
                       (case findContextByLong r flagName currentCtx' of
                          Some ctx \<Rightarrow>
                            Inr (i + 1, Some ctx,
                                 result''\<lparr>ContextPath := ContextPath result'' @ [Context ctx],
                                          ResultContext := Some ctx\<rparr>)
                        | None \<Rightarrow> Inl (UnknownLongFlag flagName)))))
      else if HasPrefix arg ''-'' \<and> length arg > 1 then
        (case cluster_loop r args i (runes (drop 1 arg)) 0 currentCtx result of
           Inl err \<Rightarrow> Inl err
         | Inr (currentCtx', result', i') \<Rightarrow> Inr (i' + 1, currentCtx', result'))
      else Inr (i + 1, currentCtx, result\<lparr>Args := Args result @ [arg]\<rparr>))"

text \<open>
  The state of the main loop after \<open>n\<close> passes, from the state in which \<^verbatim>\<open>Parse\<close> enters
  it. The main loop reaches the index \<open>i\<close> with a cursor and a result when some number
  of passes gives that state.
\<close>

fun Parse_iter ::
  "PluginRegistry \<Rightarrow> string list \<Rightarrow> nat \<Rightarrow> error + (nat \<times> PluginContext option \<times> ParseResult)" where
  "Parse_iter r args 0 =
     Inr (0, None, \<lparr>ContextPath = [], ResultContext = None, ResultFlags = Map.empty,
                    Args = [], ShowHelp = False\<rparr>)"
| "Parse_iter r args (Suc n) =
     (case Parse_iter r args n of
        Inl err \<Rightarrow> Inl err
      | Inr (i, currentCtx, result) \<Rightarrow>
          if i < length args then Parse_step r args i currentCtx result
          else Inr (i, currentCtx, result))"

lemma Parse_loop_step:
  "i < length args \<Longrightarrow>
   Parse_loop r args i currentCtx result =
     (case Parse_step r args i currentCtx result of
        Inl err \<Rightarrow> Inl err
      | Inr (i', currentCtx', result') \<Rightarrow> Parse_loop r args i' currentCtx' result')"
  by (subst Parse_loop.simps)
     (simp add: Parse_step_def Let_def split: prod.splits option.splits sum.splits)

lemma Parse_iter_Parse:
  "Parse_iter r args n = Inr (i, currentCtx, result) \<Longrightarrow>
   Parse r args = Parse_loop r args i currentCtx result"
proof (induction n arbitrary: i currentCtx result)
  case 0
  then show ?case
    by (cases args) (simp_all add: Parse_def Parse_loop.simps [of r "[]"])
next
  case (Suc n)
  from Suc.prems obtain j c rs where prev: "Parse_iter r args n = Inr (j, c, rs)"
    by (auto split: sum.splits)
  note IH = Suc.IH [OF prev]
  show ?case
  proof (cases "j < length args")
    case True
    with Suc.prems prev have "Parse_step r args j c rs = Inr (i, currentCtx, result)"
      by simp
    with True IH show ?thesis
      by (simp add: Parse_loop_step)
  next
    case False
    with Suc.prems prev IH show ?thesis
      by simp
  qed
qed

lemma Parse_step_index:
  "Parse_step r args i currentCtx result = Inr (i', currentCtx', result') \<Longrightarrow> i < i'"
  by (auto simp: Parse_step_def Let_def split: if_splits prod.splits option.splits sum.splits
        dest: matchLongFlag_index cluster_loop_index)

lemma Parse_iter_mono:
  "Parse_iter r args m = Inr (j, c, rs) \<Longrightarrow> Parse_iter r args (m + d) = Inr (j', c', rs')
   \<Longrightarrow> j \<le> j'"
proof (induction d arbitrary: j' c' rs')
  case 0
  then show ?case by simp
next
  case (Suc d)
  from Suc.prems(2) obtain k ck rk where prev: "Parse_iter r args (m + d) = Inr (k, ck, rk)"
    by (auto split: sum.splits)
  from Suc.IH [OF Suc.prems(1) prev] have "j \<le> k" .
  moreover from Suc.prems(2) prev have "k \<le> j'"
    by (auto split: if_splits dest: Parse_step_index)
  ultimately show ?case by simp
qed

text \<open>The index grows with every pass, so an index that a pass jumps is never reached.\<close>

lemma Parse_iter_skips:
  assumes "Parse_iter r args n = Inr (i, c, rs)"
    and "Parse_iter r args (Suc n) = Inr (i + 2, c', rs')"
  shows "Parse_iter r args m \<noteq> Inr (i + 1, c'', rs'')"
proof
  assume m: "Parse_iter r args m = Inr (i + 1, c'', rs'')"
  show False
  proof (cases "m \<le> n")
    case True
    then obtain d where "n = m + d"
      using le_Suc_ex by blast
    with Parse_iter_mono [OF m, of d i c rs] assms(1) show False
      by simp
  next
    case False
    then obtain d where "m = Suc n + d"
      using le_Suc_ex [of "Suc n" m] by auto
    with Parse_iter_mono [OF assms(2), of d "i + 1" c'' rs''] m show False
      by simp
  qed
qed


text \<open>
  One pass through the body of the cluster loop on the character \<open>ch\<close>, when the loop
  goes on to the next character: on \<^verbatim>\<open>h\<close>, on a context switch and on a boolean flag.
  It does not go on after an error or after a flag that requires a value. The state in
  which the cluster loop reaches the index \<open>k\<close> of a cluster is the outcome of \<open>k\<close> such
  passes.
\<close>

definition cluster_pass ::
  "PluginRegistry \<Rightarrow> rune \<Rightarrow> PluginContext option \<Rightarrow> ParseResult
     \<Rightarrow> (PluginContext option \<times> ParseResult) option" where
  "cluster_pass r ch currentCtx result =
     (if ch = byte CHR ''h'' then Some (currentCtx, result\<lparr>ShowHelp := True\<rparr>)
      else if byte CHR ''A'' \<le> ch \<and> ch \<le> byte CHR ''Z'' then
        (case (case currentCtx of
                 None \<Rightarrow> None
               | Some c \<Rightarrow> map_of (SubContexts c) ch) of
           Some subCtx \<Rightarrow>
             Some (Some subCtx,
                   result\<lparr>ContextPath := ContextPath result @ [ch], ResultContext := Some subCtx\<rparr>)
         | None \<Rightarrow>
             (case Lookup r [ch] of
                Some ctx \<Rightarrow> Some (Some ctx, result\<lparr>ContextPath := [ch], ResultContext := Some ctx\<rparr>)
              | None \<Rightarrow> None))
      else
        (case defaultShell r currentCtx result of
           (currentCtx', result') \<Rightarrow>
             (case findFlagInContext ch currentCtx' of
                None \<Rightarrow> None
              | Some flag \<Rightarrow>
                  if ArgName flag \<noteq> [] then None
                  else
                    Some (currentCtx',
                          result'\<lparr>ResultFlags := (ResultFlags result')
                             ((if Long flag = [] then runeToString (Short flag) else Long flag)
                                \<mapsto> ''true'')\<rparr>))))"

fun cluster_reach ::
  "PluginRegistry \<Rightarrow> rune list \<Rightarrow> nat \<Rightarrow> PluginContext option \<Rightarrow> ParseResult
     \<Rightarrow> (PluginContext option \<times> ParseResult) option" where
  "cluster_reach r flags 0 currentCtx result = Some (currentCtx, result)"
| "cluster_reach r flags (Suc k) currentCtx result =
     (case cluster_reach r flags k currentCtx result of
        None \<Rightarrow> None
      | Some (ctx, res) \<Rightarrow> if k < length flags then cluster_pass r (flags ! k) ctx res else None)"

lemma Lookup_single: "Lookup r [c] = map_of (contexts r) c"
  by (simp add: Lookup_def split: option.splits)

lemma cluster_loop_help:
  assumes "k < length flags" and "flags ! k = byte CHR ''h''"
  shows "cluster_loop r args i flags k ctx res =
         cluster_loop r args i flags (k + 1) ctx (res\<lparr>ShowHelp := True\<rparr>)"
  using assms by (subst cluster_loop.simps) (simp add: Let_def)

lemma cluster_loop_pass:
  assumes "k < length flags" and "cluster_pass r (flags ! k) ctx res = Some (ctx', res')"
  shows "cluster_loop r args i flags k ctx res = cluster_loop r args i flags (Suc k) ctx' res'"
proof (cases "flags ! k = byte CHR ''h''")
  case True
  with assms show ?thesis
    by (simp add: cluster_loop_help cluster_pass_def)
next
  case nh: False
  show ?thesis
  proof (cases "byte CHR ''A'' \<le> flags ! k \<and> flags ! k \<le> byte CHR ''Z''")
    case True
    then have "cluster_loop r args i flags k ctx res =
        (case (case ctx of None \<Rightarrow> None | Some c \<Rightarrow> map_of (SubContexts c) (flags ! k)) of
           Some subCtx \<Rightarrow>
             cluster_loop r args i flags (k + 1) (Some subCtx)
               (res\<lparr>ContextPath := ContextPath res @ [flags ! k], ResultContext := Some subCtx\<rparr>)
         | None \<Rightarrow>
             (case map_of (contexts r) (flags ! k) of
                Some c \<Rightarrow>
                  cluster_loop r args i flags (k + 1) (Some c)
                    (res\<lparr>ContextPath := [flags ! k], ResultContext := Some c\<rparr>)
              | None \<Rightarrow> Inl (UnknownContext (flags ! k))))"
      using assms(1) by (simp add: cluster_loop_upper)
    moreover from True nh assms(2) [unfolded cluster_pass_def Lookup_single] have
      "(case (case ctx of None \<Rightarrow> None | Some c \<Rightarrow> map_of (SubContexts c) (flags ! k)) of
          Some subCtx \<Rightarrow>
            Some (Some subCtx,
                  res\<lparr>ContextPath := ContextPath res @ [flags ! k], ResultContext := Some subCtx\<rparr>)
        | None \<Rightarrow>
            (case map_of (contexts r) (flags ! k) of
               Some c \<Rightarrow> Some (Some c, res\<lparr>ContextPath := [flags ! k], ResultContext := Some c\<rparr>)
             | None \<Rightarrow> None)) = Some (ctx', res')"
      by simp
    ultimately show ?thesis
      by (auto split: option.splits)
  next
    case False
    obtain c1 r1 where ds: "defaultShell r ctx res = (c1, r1)"
      by (cases "defaultShell r ctx res")
    with nh False assms(2) obtain flag where
      ff: "findFlagInContext (flags ! k) c1 = Some flag" and na: "ArgName flag = []"
      and out: "ctx' = c1"
        "res' = r1\<lparr>ResultFlags := (ResultFlags r1)
           ((if Long flag = [] then runeToString (Short flag) else Long flag) \<mapsto> ''true'')\<rparr>"
      by (simp add: cluster_pass_def split: option.splits if_splits)
    show ?thesis
      unfolding cluster_loop_flag [OF assms(1) nh False ds ff, of args i] out
      using na by (simp add: Let_def)
  qed
qed

lemma cluster_reach_loop:
  "cluster_reach r flags k currentCtx result = Some (ctx, res) \<Longrightarrow>
   cluster_loop r args i flags 0 currentCtx result = cluster_loop r args i flags k ctx res"
proof (induction k arbitrary: ctx res)
  case 0
  then show ?case by simp
next
  case (Suc k)
  from Suc.prems obtain c rs where prev: "cluster_reach r flags k currentCtx result = Some (c, rs)"
    and lt: "k < length flags" and pass: "cluster_pass r (flags ! k) c rs = Some (ctx, res)"
    by (auto split: option.splits if_splits)
  from Suc.IH [OF prev] cluster_loop_pass [OF lt pass] show ?case
    by simp
qed

lemma Parse_step_cluster:
  assumes "\<not> HasPrefix (args ! i) ''--''" and "HasPrefix (args ! i) ''-''"
    and "1 < length (args ! i)"
  shows "Parse_step r args i currentCtx result =
     (case cluster_loop r args i (runes (drop 1 (args ! i))) 0 currentCtx result of
        Inl err \<Rightarrow> Inl err
      | Inr (currentCtx', result', i') \<Rightarrow> Inr (i' + 1, currentCtx', result'))"
  using assms by (simp add: Parse_step_def Let_def)

lemma Parse_iter_abort:
  assumes "Parse_iter r args n = Inr (i, currentCtx, result)" and "i < length args"
    and "Parse_step r args i currentCtx result = Inl err"
  shows "Parse r args = Inl err"
  using Parse_iter_Parse [OF assms(1)] assms(2,3) by (simp add: Parse_loop_step)

text \<open>
  C3, as amended. Let the main loop of \<^verbatim>\<open>Parse\<close> reach a short-flag cluster and the
  cluster loop reach a character of it that is neither \<^verbatim>\<open>h\<close> nor an uppercase letter
  (\<^verbatim>\<open>f\<close> is one), and let the first flag with that short name in the context in effect
  (the default context when none is set) require a value. When more characters follow in
  the token, \<^verbatim>\<open>Parse\<close> fails with the requires-an-argument error, whatever tokens follow.
  When the character is the last of its token, the next whole token is stored as the value
  and the main loop goes on behind it; without a next token \<^verbatim>\<open>Parse\<close> fails with the same
  error.
\<close>

theorem value_flag_in_cluster:
  assumes "Parse_iter r args n = Inr (i, currentCtx, result)" and "i < length args"
    and "\<not> HasPrefix (args ! i) ''--''" and "HasPrefix (args ! i) ''-''"
    and "1 < length (args ! i)" and "flags = runes (drop 1 (args ! i))"
    and "cluster_reach r flags flagIdx currentCtx result = Some (ctx, res)"
    and "flagIdx < length flags" and "ch = flags ! flagIdx"
    and "ch \<noteq> byte CHR ''h''" and "\<not> (byte CHR ''A'' \<le> ch \<and> ch \<le> byte CHR ''Z'')"
    and "defaultShell r ctx res = (ctx', res')"
    and "findFlagInContext ch ctx' = Some flag" and "ArgName flag \<noteq> []"
  shows "(flagIdx < length flags - 1 \<longrightarrow> Parse r args = Inl (RequiresArgument ch))
       \<and> (flagIdx = length flags - 1 \<longrightarrow> i + 1 < length args \<longrightarrow>
            Parse_iter r args (Suc n) =
              Inr (i + 2, ctx',
                   res'\<lparr>ResultFlags := (ResultFlags res')
                      ((if Long flag = [] then runeToString (Short flag) else Long flag)
                         \<mapsto> args ! (i + 1))\<rparr>))
       \<and> (flagIdx = length flags - 1 \<longrightarrow> length args \<le> i + 1 \<longrightarrow>
            Parse r args = Inl (RequiresArgument ch))"
proof -
  note at = cluster_loop_flag [OF assms(8) assms(10,11,12,13) [unfolded assms(9)], of args i]
  note from0 = cluster_reach_loop [OF assms(7), of args i]
  note step = Parse_step_cluster [OF assms(3,4,5), of r currentCtx result, folded assms(6)]
  have a: "flagIdx < length flags - 1 \<Longrightarrow>
      Parse_step r args i currentCtx result = Inl (RequiresArgument ch)"
    unfolding step from0 at assms(9) using assms(14) by (simp add: Let_def)
  have b: "flagIdx = length flags - 1 \<Longrightarrow> i + 1 < length args \<Longrightarrow>
      Parse_step r args i currentCtx result =
        Inr (i + 2, ctx',
             res'\<lparr>ResultFlags := (ResultFlags res')
                ((if Long flag = [] then runeToString (Short flag) else Long flag)
                   \<mapsto> args ! (i + 1))\<rparr>)"
    unfolding step from0 at using assms(14) by (simp add: Let_def)
  have c: "flagIdx = length flags - 1 \<Longrightarrow> length args \<le> i + 1 \<Longrightarrow>
      Parse_step r args i currentCtx result = Inl (RequiresArgument ch)"
    unfolding step from0 at assms(9) using assms(14) by (simp add: Let_def)
  show ?thesis
    using a b c Parse_iter_abort [OF assms(1,2)] assms(1,2) by auto
qed


text \<open>
  A root \<^verbatim>\<open>T\<close> with two flags named \<^verbatim>\<open>f\<close>, the first of them boolean.
\<close>

definition firstCtx :: PluginContext where
  "firstCtx = PluginContext (byte CHR ''T'') ''time'' [] ''./plugins/time.sh''
     [\<lparr>Short = byte CHR ''f'', Long = ''first'', ArgName = [], Description = ''First only''\<rparr>,
      \<lparr>Short = byte CHR ''f'', Long = ''from'', ArgName = ''days'', Description = ''Days ago''\<rparr>,
      \<lparr>Short = byte CHR ''o'', Long = ''offline'', ArgName = [], Description = ''Offline mode''\<rparr>]
     []"

definition firstRegistry :: PluginRegistry where
  "firstRegistry = fst (Register NewPluginRegistry firstCtx)"

lemma firstRegistry_contexts: "contexts firstRegistry = [(byte CHR ''T'', firstCtx)]"
  by (simp add: firstRegistry_def Register_def NewPluginRegistry_def firstCtx_def)

text \<open>
  C3 as stated fails. The context \<^verbatim>\<open>T\<close> has a flag \<^verbatim>\<open>f\<close> that requires a value, but
  \<^verbatim>\<open>f\<close> resolves to the first flag with that short name, which is boolean, and the
  cluster \<^verbatim>\<open>-Tfo\<close> is accepted. And in \<^verbatim>\<open>-Txfo\<close> the parse fails on \<^verbatim>\<open>x\<close>, with the
  unknown-flag error, before it reaches \<^verbatim>\<open>f\<close>.
\<close>

theorem value_flag_in_cluster_counterexample:
  "Parse firstRegistry [''-Tfo'', ''5''] =
     Inr \<lparr>ContextPath = [byte CHR ''T''], ResultContext = Some firstCtx,
          ResultFlags = [''first'' \<mapsto> ''true'', ''offline'' \<mapsto> ''true''], Args = [''5''],
          ShowHelp = False\<rparr>
   \<and> Parse timeRegistry [''-Txfo'', ''5''] = Inl (UnknownFlag (byte CHR ''x''))"
  by (simp add: parse_eval firstRegistry_contexts firstCtx_def timeRegistry_contexts timeCtx_def)

lemmas reach_eval = cluster_pass_def Parse_step_def

theorem value_flag_in_cluster_witness:
  "Parse timeRegistry [''-Tfo'', ''5''] = Inl (RequiresArgument (byte CHR ''f''))
   \<and> Parse_iter timeRegistry [''-Tof'', ''5'', ''x''] (Suc 0) =
       Inr (2, Some timeCtx, atTime\<lparr>ResultFlags := [''offline'' \<mapsto> ''true'', ''from'' \<mapsto> ''5'']\<rparr>)
   \<and> Parse timeRegistry [''-Tf''] = Inl (RequiresArgument (byte CHR ''f''))"
  using value_flag_in_cluster [where r = timeRegistry and args = "[''-Tfo'', ''5'']" and n = 0
          and i = 0 and currentCtx = None
          and result = "\<lparr>ContextPath = [], ResultContext = None, ResultFlags = Map.empty,
                         Args = [], ShowHelp = False\<rparr>"
          and flags = "[byte CHR ''T'', byte CHR ''f'', byte CHR ''o'']" and flagIdx = 1
          and ctx = "Some timeCtx" and res = atTime and ch = "byte CHR ''f''"
          and ctx' = "Some timeCtx" and res' = atTime
          and flag = "\<lparr>Short = byte CHR ''f'', Long = ''from'', ArgName = ''days'',
                       Description = ''Days ago''\<rparr>"]
        value_flag_in_cluster [where r = timeRegistry and args = "[''-Tof'', ''5'', ''x'']" and n = 0
          and i = 0 and currentCtx = None
          and result = "\<lparr>ContextPath = [], ResultContext = None, ResultFlags = Map.empty,
                         Args = [], ShowHelp = False\<rparr>"
          and flags = "[byte CHR ''T'', byte CHR ''o'', byte CHR ''f'']" and flagIdx = 2
          and ctx = "Some timeCtx" and res = "atTime\<lparr>ResultFlags := [''offline'' \<mapsto> ''true'']\<rparr>"
          and ch = "byte CHR ''f''"
          and ctx' = "Some timeCtx" and res' = "atTime\<lparr>ResultFlags := [''offline'' \<mapsto> ''true'']\<rparr>"
          and flag = "\<lparr>Short = byte CHR ''f'', Long = ''from'', ArgName = ''days'',
                       Description = ''Days ago''\<rparr>"]
        value_flag_in_cluster [where r = timeRegistry and args = "[''-Tf'']" and n = 0
          and i = 0 and currentCtx = None
          and result = "\<lparr>ContextPath = [], ResultContext = None, ResultFlags = Map.empty,
                         Args = [], ShowHelp = False\<rparr>"
          and flags = "[byte CHR ''T'', byte CHR ''f'']" and flagIdx = 1
          and ctx = "Some timeCtx" and res = atTime and ch = "byte CHR ''f''"
          and ctx' = "Some timeCtx" and res' = atTime
          and flag = "\<lparr>Short = byte CHR ''f'', Long = ''from'', ArgName = ''days'',
                       Description = ''Days ago''\<rparr>"]
  by (simp add: parse_eval reach_eval timeRegistry_contexts timeCtx_def atTime_def numeral_2_eq_2)


lemma Parse_loop_long_value_last:
  assumes "i < length args" and "i + 1 = length args" and "args ! i = ''--'' @ name"
    and "name \<noteq> ''help''"
    and "defaultShell r currentCtx result = (Some ctx, result')"
    and "find (\<lambda>flag. Long flag = name) (Flags ctx) = Some flag" and "ArgName flag \<noteq> []"
    and "list_all (\<lambda>subCtx. ContextLong subCtx \<noteq> name) (map snd (SubContexts ctx))"
    and "list_all (\<lambda>root. ContextLong root \<noteq> name) (map snd (contexts r))"
  shows "Parse_loop r args i currentCtx result = Inl (UnknownLongFlag name)"
proof -
  from assms(8) have sub: "find (\<lambda>subCtx. ContextLong subCtx = name) (map snd (SubContexts ctx)) = None"
    by (simp add: find_None_iff list_all_iff)
  from assms(9) have root: "find (\<lambda>root. ContextLong root = name) (map snd (contexts r)) = None"
    by (simp add: find_None_iff list_all_iff)
  from assms(2) have last: "\<not> Suc i < length args"
    by simp
  show ?thesis
    by (subst Parse_loop.simps)
       (simp add: assms(1,3,4,5,6,7) last sub root Let_def HasPrefix_def TrimPrefix_def
          matchLongFlag_def matchLongFlag_loop_find findContextByLong_def)
qed

text \<open>
  C9, as amended. When the main loop of \<^verbatim>\<open>Parse\<close> reaches the last token and it is
  \<^verbatim>\<open>--name\<close>, the name is not \<^verbatim>\<open>help\<close>, the first flag with that long name in the
  context in effect requires a value, and no sub-context of that context and no root
  context has that long name, \<^verbatim>\<open>Parse\<close> returns the unknown-flag error, and so no result
  and no value for the flag.
\<close>

theorem long_value_flag_at_end:
  assumes "Parse_iter r args n = Inr (i, currentCtx, result)"
    and "i + 1 = length args" and "args ! i = ''--'' @ name" and "name \<noteq> ''help''"
    and "defaultShell r currentCtx result = (Some ctx, result')"
    and "find (\<lambda>flag. Long flag = name) (Flags ctx) = Some flag" and "ArgName flag \<noteq> []"
    and "list_all (\<lambda>subCtx. ContextLong subCtx \<noteq> name) (map snd (SubContexts ctx))"
    and "list_all (\<lambda>root. ContextLong root \<noteq> name) (map snd (contexts r))"
  shows "Parse r args = Inl (UnknownLongFlag name)"
proof -
  from assms(2) have "i < length args"
    by simp
  from Parse_loop_long_value_last [OF this assms(2-9)] Parse_iter_Parse [OF assms(1)]
  show ?thesis
    by simp
qed

theorem long_value_flag_at_end_witness:
  "Parse_iter timeRegistry [''-T'', ''--from''] (Suc 0) = Inr (1, Some timeCtx, atTime)
   \<and> Parse timeRegistry [''-T'', ''--from''] = Inl (UnknownLongFlag ''from'')"
  using long_value_flag_at_end [where r = timeRegistry and args = "[''-T'', ''--from'']"
          and n = "Suc 0" and i = 1 and currentCtx = "Some timeCtx" and result = atTime
          and name = "''from''" and ctx = timeCtx and result' = atTime
          and flag = "\<lparr>Short = byte CHR ''f'', Long = ''from'', ArgName = ''days'',
                       Description = ''Days ago''\<rparr>"]
  by (simp add: parse_eval reach_eval timeRegistry_contexts timeCtx_def overtimeCtx_def atTime_def)

lemma Parse_step_dash:
  "args ! i = ''-'' \<Longrightarrow>
   Parse_step r args i currentCtx result =
     Inr (i + 1, currentCtx, result\<lparr>Args := Args result @ [''-'']\<rparr>)"
  by (simp add: Parse_step_def Let_def HasPrefix_def)

lemma Parse_step_long_value:
  assumes "i + 1 < length args" and "args ! i = ''--'' @ name" and "name \<noteq> ''help''"
    and "defaultShell r currentCtx result = (Some ctx, result')"
    and "find (\<lambda>flag. Long flag = name) (Flags ctx) = Some flag" and "ArgName flag \<noteq> []"
  shows "Parse_step r args i currentCtx result =
     Inr (i + 2, Some ctx,
          result'\<lparr>ResultFlags := (ResultFlags result')(name \<mapsto> args ! (i + 1))\<rparr>)"
proof -
  from assms(5) have "Long flag = name"
    by (auto simp: find_Some_iff)
  with assms show ?thesis
    by (simp add: Parse_step_def Let_def HasPrefix_def TrimPrefix_def matchLongFlag_def
          matchLongFlag_loop_find)
qed

lemma Parse_step_cluster_value:
  assumes "\<not> HasPrefix (args ! i) ''--''" and "HasPrefix (args ! i) ''-''"
    and "1 < length (args ! i)" and "flags = runes (drop 1 (args ! i))"
    and "cluster_reach r flags flagIdx currentCtx result = Some (ctx, res)"
    and "flagIdx < length flags" and "flagIdx = length flags - 1"
    and "flags ! flagIdx \<noteq> byte CHR ''h''"
    and "\<not> (byte CHR ''A'' \<le> flags ! flagIdx \<and> flags ! flagIdx \<le> byte CHR ''Z'')"
    and "defaultShell r ctx res = (ctx', res')"
    and "findFlagInContext (flags ! flagIdx) ctx' = Some flag" and "ArgName flag \<noteq> []"
    and "i + 1 < length args"
  shows "Parse_step r args i currentCtx result =
     Inr (i + 2, ctx',
          res'\<lparr>ResultFlags := (ResultFlags res')
             ((if Long flag = [] then runeToString (Short flag) else Long flag)
                \<mapsto> args ! (i + 1))\<rparr>)"
proof -
  note at = cluster_loop_flag [OF assms(6,8,9,10,11), of args i]
  note from0 = cluster_reach_loop [OF assms(5), of args i]
  note step = Parse_step_cluster [OF assms(1,2,3), of r currentCtx result, folded assms(4)]
  show ?thesis
    unfolding step from0 at using assms(7,12,13) by (simp add: Let_def)
qed

text \<open>
  C10, as amended. At every position that the main loop of \<^verbatim>\<open>Parse\<close> reaches, a token
  that is the single character \<^verbatim>\<open>-\<close> is appended to the leftover arguments and the loop
  goes on with the next token. The loop does not reach the token behind a value-requiring
  flag that it reaches, a \<^verbatim>\<open>--name\<close> flag or the last flag of a cluster: that token,
  a \<^verbatim>\<open>-\<close> too, is stored as the value of the flag.
\<close>

theorem dash_token_positional:
  "(Parse_iter r args n = Inr (i, currentCtx, result) \<longrightarrow> i < length args
      \<longrightarrow> args ! i = ''-''
      \<longrightarrow> Parse_iter r args (Suc n) =
            Inr (i + 1, currentCtx, result\<lparr>Args := Args result @ [''-'']\<rparr>)
          \<and> Parse r args =
            Parse_loop r args (i + 1) currentCtx (result\<lparr>Args := Args result @ [''-'']\<rparr>))
   \<and> (Parse_iter r args n = Inr (i, currentCtx, result) \<longrightarrow> i + 1 < length args
      \<longrightarrow> args ! i = ''--'' @ name \<longrightarrow> name \<noteq> ''help''
      \<longrightarrow> defaultShell r currentCtx result = (Some lctx, result')
      \<longrightarrow> find (\<lambda>flag. Long flag = name) (Flags lctx) = Some lflag
      \<longrightarrow> ArgName lflag \<noteq> []
      \<longrightarrow> Parse_iter r args (Suc n) =
            Inr (i + 2, Some lctx,
                 result'\<lparr>ResultFlags := (ResultFlags result')(name \<mapsto> args ! (i + 1))\<rparr>)
          \<and> (\<forall>m c rs. Parse_iter r args m \<noteq> Inr (i + 1, c, rs)))
   \<and> (Parse_iter r args n = Inr (i, currentCtx, result) \<longrightarrow> i + 1 < length args
      \<longrightarrow> \<not> HasPrefix (args ! i) ''--'' \<longrightarrow> HasPrefix (args ! i) ''-''
      \<longrightarrow> 1 < length (args ! i) \<longrightarrow> flags = runes (drop 1 (args ! i))
      \<longrightarrow> cluster_reach r flags flagIdx currentCtx result = Some (ctx, res)
      \<longrightarrow> flagIdx < length flags \<longrightarrow> flagIdx = length flags - 1
      \<longrightarrow> flags ! flagIdx \<noteq> byte CHR ''h''
      \<longrightarrow> \<not> (byte CHR ''A'' \<le> flags ! flagIdx \<and> flags ! flagIdx \<le> byte CHR ''Z'')
      \<longrightarrow> defaultShell r ctx res = (ctx', res')
      \<longrightarrow> findFlagInContext (flags ! flagIdx) ctx' = Some flag \<longrightarrow> ArgName flag \<noteq> []
      \<longrightarrow> Parse_iter r args (Suc n) =
            Inr (i + 2, ctx',
                 res'\<lparr>ResultFlags := (ResultFlags res')
                    ((if Long flag = [] then runeToString (Short flag) else Long flag)
                       \<mapsto> args ! (i + 1))\<rparr>)
          \<and> (\<forall>m c rs. Parse_iter r args m \<noteq> Inr (i + 1, c, rs)))"
proof (intro conjI impI)
  assume reach: "Parse_iter r args n = Inr (i, currentCtx, result)" and "i < length args"
    and "args ! i = ''-''"
  then show next1: "Parse_iter r args (Suc n) =
      Inr (i + 1, currentCtx, result\<lparr>Args := Args result @ [''-'']\<rparr>)"
    by (simp add: Parse_step_dash)
  from Parse_iter_Parse [OF next1]
  show "Parse r args = Parse_loop r args (i + 1) currentCtx (result\<lparr>Args := Args result @ [''-'']\<rparr>)" .
next
  assume reach: "Parse_iter r args n = Inr (i, currentCtx, result)" and lt: "i + 1 < length args"
    and "args ! i = ''--'' @ name" "name \<noteq> ''help''"
    "defaultShell r currentCtx result = (Some lctx, result')"
    "find (\<lambda>flag. Long flag = name) (Flags lctx) = Some lflag" "ArgName lflag \<noteq> []"
  then have "Parse_step r args i currentCtx result =
      Inr (i + 2, Some lctx,
           result'\<lparr>ResultFlags := (ResultFlags result')(name \<mapsto> args ! (i + 1))\<rparr>)"
    by (intro Parse_step_long_value)
  with reach lt show next2: "Parse_iter r args (Suc n) =
      Inr (i + 2, Some lctx,
           result'\<lparr>ResultFlags := (ResultFlags result')(name \<mapsto> args ! (i + 1))\<rparr>)"
    by simp
  from Parse_iter_skips [OF reach next2]
  show "\<forall>m c rs. Parse_iter r args m \<noteq> Inr (i + 1, c, rs)"
    by blast
next
  assume reach: "Parse_iter r args n = Inr (i, currentCtx, result)" and lt: "i + 1 < length args"
    and "\<not> HasPrefix (args ! i) ''--''" "HasPrefix (args ! i) ''-''" "1 < length (args ! i)"
    "flags = runes (drop 1 (args ! i))"
    "cluster_reach r flags flagIdx currentCtx result = Some (ctx, res)"
    "flagIdx < length flags" "flagIdx = length flags - 1"
    "flags ! flagIdx \<noteq> byte CHR ''h''"
    "\<not> (byte CHR ''A'' \<le> flags ! flagIdx \<and> flags ! flagIdx \<le> byte CHR ''Z'')"
    "defaultShell r ctx res = (ctx', res')"
    "findFlagInContext (flags ! flagIdx) ctx' = Some flag" "ArgName flag \<noteq> []"
  then have "Parse_step r args i currentCtx result =
      Inr (i + 2, ctx',
           res'\<lparr>ResultFlags := (ResultFlags res')
              ((if Long flag = [] then runeToString (Short flag) else Long flag)
                 \<mapsto> args ! (i + 1))\<rparr>)"
    by (intro Parse_step_cluster_value)
  with reach lt show next3: "Parse_iter r args (Suc n) =
      Inr (i + 2, ctx',
           res'\<lparr>ResultFlags := (ResultFlags res')
              ((if Long flag = [] then runeToString (Short flag) else Long flag)
                 \<mapsto> args ! (i + 1))\<rparr>)"
    by simp
  from Parse_iter_skips [OF reach next3]
  show "\<forall>m c rs. Parse_iter r args m \<noteq> Inr (i + 1, c, rs)"
    by blast
qed


text \<open>
  C10 as stated fails: behind the value-requiring flag \<^verbatim>\<open>-f\<close> or \<^verbatim>\<open>--from\<close> the token
  \<^verbatim>\<open>-\<close> is the value of the flag, and the leftover arguments stay empty.
\<close>

theorem dash_token_positional_counterexample:
  "Parse timeRegistry [''-Tf'', ''-''] = Inr (atTime\<lparr>ResultFlags := [''from'' \<mapsto> ''-'']\<rparr>)
   \<and> Parse timeRegistry [''-T'', ''--from'', ''-''] =
       Inr (atTime\<lparr>ResultFlags := [''from'' \<mapsto> ''-'']\<rparr>)
   \<and> Args (atTime\<lparr>ResultFlags := [''from'' \<mapsto> ''-'']\<rparr>) = []"
  by (simp add: parse_eval timeRegistry_contexts timeCtx_def atTime_def)

theorem dash_token_positional_witness:
  "Parse_iter timeRegistry [''-T'', ''-'', ''x''] (Suc (Suc 0)) =
     Inr (2, Some timeCtx, atTime\<lparr>Args := [''-'']\<rparr>)
   \<and> Parse timeRegistry [''-T'', ''-'', ''x''] = Inr (atTime\<lparr>Args := [''-'', ''x'']\<rparr>)
   \<and> Parse_iter timeRegistry [''-T'', ''--from'', ''-''] (Suc (Suc 0)) =
     Inr (3, Some timeCtx, atTime\<lparr>ResultFlags := [''from'' \<mapsto> ''-'']\<rparr>)
   \<and> Parse_iter timeRegistry [''-Tf'', ''-''] (Suc 0) =
     Inr (2, Some timeCtx, atTime\<lparr>ResultFlags := [''from'' \<mapsto> ''-'']\<rparr>)"
  using dash_token_positional [where r = timeRegistry and args = "[''-T'', ''-'', ''x'']"
          and n = "Suc 0" and i = 1 and currentCtx = "Some timeCtx" and result = atTime]
        dash_token_positional [where r = timeRegistry and args = "[''-T'', ''--from'', ''-'']"
          and n = "Suc 0" and i = 1 and currentCtx = "Some timeCtx" and result = atTime
          and name = "''from''" and lctx = timeCtx and result' = atTime
          and lflag = "\<lparr>Short = byte CHR ''f'', Long = ''from'', ArgName = ''days'',
                        Description = ''Days ago''\<rparr>"]
        dash_token_positional [where r = timeRegistry and args = "[''-Tf'', ''-'']"
          and n = 0 and i = 0 and currentCtx = None
          and result = "\<lparr>ContextPath = [], ResultContext = None, ResultFlags = Map.empty,
                         Args = [], ShowHelp = False\<rparr>"
          and flags = "[byte CHR ''T'', byte CHR ''f'']" and flagIdx = 1
          and ctx = "Some timeCtx" and res = atTime and ctx' = "Some timeCtx" and res' = atTime
          and flag = "\<lparr>Short = byte CHR ''f'', Long = ''from'', ArgName = ''days'',
                       Description = ''Days ago''\<rparr>"]
  by (simp add: parse_eval reach_eval timeRegistry_contexts timeCtx_def atTime_def)

text \<open>
  C9 as stated fails. A last token \<^verbatim>\<open>--from\<close> behind a value-requiring flag is the
  value of that flag; \<^verbatim>\<open>--help\<close> is the help request before any flag is looked up; and of
  two flags with one long name the first decides. All four parses succeed.
\<close>

theorem long_value_flag_at_end_counterexample:
  "Parse timeRegistry [''-T'', ''--from'', ''--from''] =
     Inr (atTime\<lparr>ResultFlags := [''from'' \<mapsto> ''--from'']\<rparr>)
   \<and> Parse timeRegistry [''-Tf'', ''--from''] =
     Inr (atTime\<lparr>ResultFlags := [''from'' \<mapsto> ''--from'']\<rparr>)
   \<and> Parse helpRegistry [''-T'', ''--help''] =
     Inr \<lparr>ContextPath = [byte CHR ''T''], ResultContext = Some helpCtx,
          ResultFlags = Map.empty, Args = [], ShowHelp = True\<rparr>
   \<and> Parse helpRegistry [''-T'', ''--mode''] =
     Inr \<lparr>ContextPath = [byte CHR ''T''], ResultContext = Some helpCtx,
          ResultFlags = [''mode'' \<mapsto> ''true''], Args = [], ShowHelp = False\<rparr>"
  by (simp add: parse_eval timeRegistry_contexts timeCtx_def atTime_def helpRegistry_contexts
        helpCtx_def)

section \<open>The self-description grammar\<close>

text \<open>
  The errors of \<^verbatim>\<open>parsePluginDefinition\<close> and of the functions it calls, one constructor
  for each \<^verbatim>\<open>fmt.Errorf\<close> of the source, and \<open>IndexOutOfRange\<close> for the run-time panic
  of an index expression out of range. The two errors \<open>MissingDescriptionAfter\<close> and
  \<open>MissingLongOrDescription\<close> stand behind a second test \<^verbatim>\<open>len(args) < 2\<close>, which the
  first test of \<^verbatim>\<open>parsePluginDefinition\<close> makes unreachable.
\<close>

datatype def_error =
    NeedAtLeast
  | MissingDescriptionAfter string
  | ShortMustBeCapital rune
  | MissingLongOrDescription string
  | MissingDescriptionAfterBoth string string
  | ExpectedContextFlag string
  | MustSpecifyShortOrLong
  | ErrorParsingSubContext def_error
  | ErrorParsingFlag def_error
  | SubContextNeedsAtLeast
  | ExpectedLongForSubContext string
  | FlagNeedsDescription
  | FlagMustHaveName
  | FlagMissingDescription
  | IndexOutOfRange

text \<open>
  \<^verbatim>\<open>strings.ToUpper\<close> and \<^verbatim>\<open>strings.ToLower\<close>. A string of ASCII bytes is mapped byte by
  byte. Any other string is mapped rune by rune with \<^verbatim>\<open>unicode.ToUpper\<close> and
  \<^verbatim>\<open>unicode.ToLower\<close>, which map an ASCII letter themselves and look any other rune up
  in the case tables of the Go library: \<^verbatim>\<open>unicode.To\<close>, the parameter \<open>To\<close> here.
\<close>

definition UpperCase :: nat where
  "UpperCase = 0"

definition LowerCase :: nat where
  "LowerCase = 1"

definition unicodeToUpper :: "(nat \<Rightarrow> rune \<Rightarrow> rune) \<Rightarrow> rune \<Rightarrow> rune" where
  "unicodeToUpper To r =
     (if r \<le> 0x7F then (if byte CHR ''a'' \<le> r \<and> r \<le> byte CHR ''z'' then r - 32 else r)
      else To UpperCase r)"

definition unicodeToLower :: "(nat \<Rightarrow> rune \<Rightarrow> rune) \<Rightarrow> rune \<Rightarrow> rune" where
  "unicodeToLower To r =
     (if r \<le> 0x7F then (if byte CHR ''A'' \<le> r \<and> r \<le> byte CHR ''Z'' then r + 32 else r)
      else To LowerCase r)"

text \<open>\<^verbatim>\<open>strings.Map\<close>: a rune that is mapped to a negative value is dropped.\<close>

definition Map_runes :: "(rune \<Rightarrow> rune) \<Rightarrow> string \<Rightarrow> string" where
  "Map_runes mapping s =
     concat (map (\<lambda>c. if mapping c < 0 then [] else runeToString (mapping c)) (runes s))"

definition ToUpper :: "(nat \<Rightarrow> rune \<Rightarrow> rune) \<Rightarrow> string \<Rightarrow> string" where
  "ToUpper To s =
     (if list_all (\<lambda>c. byte c < 0x80) s
      then map (\<lambda>c. if byte CHR ''a'' \<le> byte c \<and> byte c \<le> byte CHR ''z''
                     then char_of (byte c - 32) else c) s
      else Map_runes (unicodeToUpper To) s)"

definition ToLower :: "(nat \<Rightarrow> rune \<Rightarrow> rune) \<Rightarrow> string \<Rightarrow> string" where
  "ToLower To s =
     (if list_all (\<lambda>c. byte c < 0x80) s
      then map (\<lambda>c. if byte CHR ''A'' \<le> byte c \<and> byte c \<le> byte CHR ''Z''
                     then char_of (byte c + 32) else c) s
      else Map_runes (unicodeToLower To) s)"

text \<open>
  The test \<^verbatim>\<open>strings.HasPrefix(arg, "-") && len(arg) == 2\<close> with an uppercase second
  byte, which \<^verbatim>\<open>parseFlagsAndSubContexts\<close> and \<^verbatim>\<open>parseSubContext\<close> both make.
\<close>

definition isContextToken :: "string \<Rightarrow> bool" where
  "isContextToken arg =
     (HasPrefix arg ''-'' \<and> length arg = 2
      \<and> byte CHR ''A'' \<le> byte (arg ! 1) \<and> byte (arg ! 1) \<le> byte CHR ''Z'')"

text \<open>\<^verbatim>\<open>parseFlag\<close>: the flag and the number of arguments it consumed.\<close>

definition parseFlag :: "string list \<Rightarrow> def_error + (Flag \<times> nat)" where
  "parseFlag args =
     (if length args < 2 then Inl FlagNeedsDescription
      else
        (let hasShort = (HasPrefix (args ! 0) ''-'' \<and> length (args ! 0) = 2
                          \<and> byte CHR ''a'' \<le> byte (args ! 0 ! 1)
                          \<and> byte (args ! 0 ! 1) \<le> byte CHR ''z'');
             short = (if hasShort then byte (args ! 0 ! 1) else 0);
             consumed = (if hasShort then 1 else 0);
             hasLong = (consumed < length args \<and> HasPrefix (args ! consumed) ''--'');
             long = (if hasLong then TrimPrefix (args ! consumed) ''--'' else []);
             consumed = (if hasLong then consumed + 1 else consumed)
         in
         if short = 0 \<and> long = [] then Inl FlagMustHaveName
         else
           (let remainingArgs = length (takeWhile (\<lambda>a. \<not> HasPrefix a ''-'') (drop consumed args))
            in
            if 2 \<le> remainingArgs then
              Inr (\<lparr>Short = short, Long = long, ArgName = args ! consumed,
                     Description = args ! (consumed + 1)\<rparr>, consumed + 2)
            else if remainingArgs = 1 then
              Inr (\<lparr>Short = short, Long = long, ArgName = [],
                     Description = args ! consumed\<rparr>, consumed + 1)
            else Inl FlagMissingDescription)))"

lemma parseFlag_consumed:
  "parseFlag args = Inr (flag, n) \<Longrightarrow> 0 < n"
  by (auto simp: parseFlag_def Let_def split: if_splits)

text \<open>
  The loop of \<^verbatim>\<open>parseSubContext\<close> over the flags of the sub-context, from the index
  \<open>consumed\<close>: it stops at the end or in front of the next context token.
\<close>

function parseSubContext_loop ::
  "string list \<Rightarrow> nat \<Rightarrow> Flag list \<Rightarrow> def_error + (Flag list \<times> nat)" where
  "parseSubContext_loop args consumed flags =
     (if consumed < length args then
        (if isContextToken (args ! consumed) then Inr (flags, consumed)
         else
           (case parseFlag (drop consumed args) of
              Inl err \<Rightarrow> Inl err
            | Inr (flag, flagConsumed) \<Rightarrow>
                parseSubContext_loop args (consumed + flagConsumed) (flags @ [flag])))
      else Inr (flags, consumed))"
  by pat_completeness auto
termination
  by (relation "measure (\<lambda>(args, consumed, flags). length args - consumed)")
     (auto dest: parseFlag_consumed)

declare parseSubContext_loop.simps [simp del]

text \<open>
  \<^verbatim>\<open>parseSubContext\<close>: the sub-context and the number of arguments it consumed. The
  parameter \<open>script\<close> is the value of the environment variable \<^verbatim>\<open>WSH_PLUGIN_SCRIPT\<close>.
  The field \<^verbatim>\<open>SubContexts\<close> of the node is left unset.
\<close>

definition parseSubContext :: "string \<Rightarrow> string list \<Rightarrow> def_error + (PluginContext \<times> nat)" where
  "parseSubContext script args =
     (if length args < 3 then Inl SubContextNeedsAtLeast
      else if length (args ! 0) < 2 then Inl IndexOutOfRange
      else if \<not> HasPrefix (args ! 1) ''--'' then Inl (ExpectedLongForSubContext (args ! 1))
      else
        (case parseSubContext_loop args 3 [] of
           Inl err \<Rightarrow> Inl err
         | Inr (flags, consumed) \<Rightarrow>
             Inr (PluginContext (byte (args ! 0 ! 1)) (TrimPrefix (args ! 1) ''--'') (args ! 2)
                    script flags [],
                  consumed)))"

text \<open>The assignment \<^verbatim>\<open>m[k] = v\<close> to a map.\<close>

fun assign :: "('k \<times> 'v) list \<Rightarrow> 'k \<Rightarrow> 'v \<Rightarrow> ('k \<times> 'v) list" where
  "assign [] k v = [(k, v)]"
| "assign ((k', v') # m) k v = (if k' = k then (k, v) # m else (k', v') # assign m k v)"

lemma parseSubContext_loop_consumed:
  "parseSubContext_loop args consumed flags = Inr (flags', n) \<Longrightarrow> consumed \<le> n"
proof (induction "length args - consumed" arbitrary: consumed flags rule: less_induct)
  case less
  show ?case
  proof (cases "consumed < length args \<and> \<not> isContextToken (args ! consumed)")
    case False
    with less.prems show ?thesis
      by (subst (asm) parseSubContext_loop.simps) (auto split: if_splits)
  next
    case True
    with less.prems obtain flag k where
      pf: "parseFlag (drop consumed args) = Inr (flag, k)" and
      rec: "parseSubContext_loop args (consumed + k) (flags @ [flag]) = Inr (flags', n)"
      by (subst (asm) parseSubContext_loop.simps) (auto split: sum.splits)
    from pf have "0 < k"
      by (rule parseFlag_consumed)
    with True have "length args - (consumed + k) < length args - consumed"
      by arith
    from less.hyps [OF this rec] show ?thesis
      by simp
  qed
qed

lemma parseSubContext_consumed:
  "parseSubContext script args = Inr (subCtx, n) \<Longrightarrow> 3 \<le> n"
  by (auto simp: parseSubContext_def split: if_splits sum.splits
        dest: parseSubContext_loop_consumed)

text \<open>
  The loop of \<^verbatim>\<open>parseFlagsAndSubContexts\<close>, from index \<open>i\<close>, and the function itself.
  A context token starts a sub-context, which is stored in the map of the definition that
  is being parsed; anything else is a flag.
\<close>

function parseFlagsAndSubContexts_loop ::
  "string \<Rightarrow> string list \<Rightarrow> nat \<Rightarrow> Flag list \<Rightarrow> (rune \<times> PluginContext) list
     \<Rightarrow> def_error + (Flag list \<times> (rune \<times> PluginContext) list)" where
  "parseFlagsAndSubContexts_loop script args i flags subContexts =
     (if i < length args then
        (if isContextToken (args ! i) then
           (case parseSubContext script (drop i args) of
              Inl err \<Rightarrow> Inl (ErrorParsingSubContext err)
            | Inr (subCtx, consumed) \<Rightarrow>
                parseFlagsAndSubContexts_loop script args (i + consumed) flags
                  (assign subContexts (Context subCtx) subCtx))
         else
           (case parseFlag (drop i args) of
              Inl err \<Rightarrow> Inl (ErrorParsingFlag err)
            | Inr (flag, consumed) \<Rightarrow>
                parseFlagsAndSubContexts_loop script args (i + consumed) (flags @ [flag])
                  subContexts))
      else Inr (flags, subContexts))"
  by pat_completeness auto
termination
  by (relation "measure (\<lambda>(script, args, i, flags, subContexts). length args - i)")
     (auto dest: parseFlag_consumed parseSubContext_consumed)

declare parseFlagsAndSubContexts_loop.simps [simp del]

definition parseFlagsAndSubContexts ::
  "string \<Rightarrow> string list \<Rightarrow> def_error + (Flag list \<times> (rune \<times> PluginContext) list)" where
  "parseFlagsAndSubContexts script args = parseFlagsAndSubContexts_loop script args 0 [] []"

text \<open>
  \<^verbatim>\<open>parsePluginDefinition\<close>. The header gives the short letter, the long name, the
  description and the index where the flags start; then come the check that one of the
  two names is there, and the flags and sub-contexts.
\<close>

definition parsePluginDefinition ::
  "(nat \<Rightarrow> rune \<Rightarrow> rune) \<Rightarrow> string \<Rightarrow> string list \<Rightarrow> def_error + PluginContext" where
  "parsePluginDefinition To script args =
     (if length args < 2 then Inl NeedAtLeast
      else
        (case
           (if HasPrefix (args ! 0) ''--'' then
              (let contextLong = TrimPrefix (args ! 0) ''--'' in
               if 0 < length contextLong then
                 (case ToUpper To contextLong of
                    [] \<Rightarrow> Inl IndexOutOfRange
                  | c # _ \<Rightarrow> Inr (byte c, contextLong, args ! 1, 2))
               else Inr (0, contextLong, args ! 1, 2))
            else if HasPrefix (args ! 0) ''-'' \<and> length (args ! 0) = 2 then
              (let contextShort = byte (args ! 0 ! 1) in
               if contextShort < byte CHR ''A'' \<or> byte CHR ''Z'' < contextShort
               then Inl (ShortMustBeCapital contextShort)
               else if HasPrefix (args ! 1) ''--'' then
                 (if length args < 3
                  then Inl (MissingDescriptionAfterBoth (args ! 0) (args ! 1))
                  else Inr (contextShort, TrimPrefix (args ! 1) ''--'', args ! 2, 3))
               else Inr (contextShort, ToLower To (runeToString contextShort), args ! 1, 2))
            else Inl (ExpectedContextFlag (args ! 0)))
         of
           Inl err \<Rightarrow> Inl err
         | Inr (contextShort, contextLong, description, flagsStart) \<Rightarrow>
             if contextShort = 0 \<and> contextLong = [] then Inl MustSpecifyShortOrLong
             else
               (case parseFlagsAndSubContexts script (drop flagsStart args) of
                  Inl err \<Rightarrow> Inl err
                | Inr (flags, subContexts) \<Rightarrow>
                    Inr (PluginContext contextShort contextLong description script flags
                           subContexts))))"

section \<open>Properties of the self-description grammar\<close>

lemmas def_eval =
  parsePluginDefinition_def parseFlagsAndSubContexts_def parseFlagsAndSubContexts_loop.simps
  parseSubContext_def parseSubContext_loop.simps parseFlag_def isContextToken_def
  HasPrefix_def TrimPrefix_def ToUpper_def ToLower_def runeToString_def Let_def byte_def
  char_of_def

text \<open>
  C7. The three header forms give the short letter and the long name as stated:
  \<^verbatim>\<open>--time\<close> derives \<^verbatim>\<open>T\<close>, \<^verbatim>\<open>-T\<close> derives \<^verbatim>\<open>t\<close>, \<^verbatim>\<open>-T --time\<close> takes both. A
  short letter that is no uppercase letter is refused when the header gives it
  (\<^verbatim>\<open>-9\<close>), but the letter derived from a long name is not checked: the header
  \<^verbatim>\<open>--9lives\<close> is accepted and yields a context whose short letter is \<^verbatim>\<open>9\<close>.
\<close>

theorem derived_short_unchecked:
  "parsePluginDefinition To script [''--9lives'', ''Nine lives''] =
     Inr (PluginContext (byte CHR ''9'') ''9lives'' ''Nine lives'' script [] [])
   \<and> parsePluginDefinition To script [''-9'', ''--9lives'', ''Nine lives''] =
     Inl (ShortMustBeCapital (byte CHR ''9''))
   \<and> parsePluginDefinition To script [''--time'', ''Time tracking''] =
     Inr (PluginContext (byte CHR ''T'') ''time'' ''Time tracking'' script [] [])
   \<and> parsePluginDefinition To script [''-T'', ''Time tracking''] =
     Inr (PluginContext (byte CHR ''T'') ''t'' ''Time tracking'' script [] [])
   \<and> parsePluginDefinition To script [''-T'', ''--time'', ''Time tracking''] =
     Inr (PluginContext (byte CHR ''T'') ''time'' ''Time tracking'' script [] [])"
  by (simp add: def_eval)

text \<open>
  The header forms in general, for a definition that is accepted. A long name that starts
  with an ASCII byte gives that byte, in upper case when it is a letter, as the short
  letter; an uppercase letter alone gives itself in lower case as the long name; a short
  token whose byte is no uppercase letter is refused.
\<close>

lemma ToUpper_head:
  assumes "byte c < 0x80"
  shows "\<exists>rest. ToUpper To (c # s) =
           (if byte CHR ''a'' \<le> byte c \<and> byte c \<le> byte CHR ''z''
            then char_of (byte c - 32) else c) # rest"
proof (cases "list_all (\<lambda>c. byte c < 0x80) (c # s)")
  case True
  then show ?thesis
    by (simp add: ToUpper_def)
next
  case False
  have nn: "0 \<le> byte c"
    unfolding byte_def by (metis of_nat_of_char of_nat_0_le_iff)
  have id: "char_of (byte c) = c"
    by (simp add: byte_def)
  from False have "ToUpper To (c # s) = Map_runes (unicodeToUpper To) (c # s)"
    by (simp only: ToUpper_def if_False)
  moreover have "decodeRune c s = (byte c, 0)"
    using assms by simp
  ultimately show ?thesis
    using assms nn
    by (cases "byte CHR ''a'' \<le> byte c \<and> byte c \<le> byte CHR ''z''")
       (auto simp: Map_runes_def unicodeToUpper_def runeToString_def id byte_def
          simp del: decodeRune.simps)
qed

lemma header_forms:
  "(args = (''--'' @ c # l) # description # rest \<longrightarrow> byte c < 0x80
      \<longrightarrow> parsePluginDefinition To script args = Inr ctx
      \<longrightarrow> Context ctx = byte (if byte CHR ''a'' \<le> byte c \<and> byte c \<le> byte CHR ''z''
                                then char_of (byte c - 32) else c)
          \<and> ContextLong ctx = c # l \<and> CtxDescription ctx = description)
   \<and> (args = [CHR ''-'', c] # description # rest \<longrightarrow> byte CHR ''A'' \<le> byte c
      \<longrightarrow> byte c \<le> byte CHR ''Z'' \<longrightarrow> \<not> HasPrefix description ''--''
      \<longrightarrow> parsePluginDefinition To script args = Inr ctx
      \<longrightarrow> Context ctx = byte c \<and> ContextLong ctx = [char_of (byte c + 32)]
          \<and> CtxDescription ctx = description)
   \<and> (args = [CHR ''-'', c] # (''--'' @ long) # description # rest \<longrightarrow> byte CHR ''A'' \<le> byte c
      \<longrightarrow> byte c \<le> byte CHR ''Z''
      \<longrightarrow> parsePluginDefinition To script args = Inr ctx
      \<longrightarrow> Context ctx = byte c \<and> ContextLong ctx = long \<and> CtxDescription ctx = description)
   \<and> (args = [CHR ''-'', c] # a # rest \<longrightarrow> c \<noteq> CHR ''-''
      \<longrightarrow> byte c < byte CHR ''A'' \<or> byte CHR ''Z'' < byte c
      \<longrightarrow> parsePluginDefinition To script args = Inl (ShortMustBeCapital (byte c)))"
proof -
  obtain up where up: "ToUpper To (c # l) =
      (if byte CHR ''a'' \<le> byte c \<and> byte c \<le> byte CHR ''z''
       then char_of (byte c - 32) else c) # up" if "byte c < 0x80"
    using ToUpper_head [of c To l] by blast
  have low: "byte CHR ''A'' \<le> byte c \<Longrightarrow> byte c \<le> byte CHR ''Z'' \<Longrightarrow>
      ToLower To (runeToString (byte c)) = [char_of (byte c + 32)]"
    by (simp add: ToLower_def runeToString_def byte_def)
  show ?thesis
    using up low
    by (auto simp: parsePluginDefinition_def HasPrefix_def TrimPrefix_def Let_def
          split: if_splits sum.splits list.splits)
qed

text \<open>
  C6 as stated fails. The short-only header \<^verbatim>\<open>-O Overtime\<close> is accepted for a top-level
  definition and refused for a sub-context; and a context token after a sub-context
  starts a second sub-context of the top-level definition, not one nested in the first.
\<close>

theorem parseSubContext_form_counterexample:
  "parsePluginDefinition (\<lambda>c r. r) [] [''-O'', ''Overtime''] =
     Inr (PluginContext (byte CHR ''O'') ''o'' ''Overtime'' [] [] [])
   \<and> parsePluginDefinition (\<lambda>c r. r) []
       [''-T'', ''--time'', ''Time'', ''-O'', ''Overtime'', ''-s'', ''--start'', ''Start''] =
     Inl (ErrorParsingSubContext (ExpectedLongForSubContext ''Overtime''))
   \<and> parsePluginDefinition (\<lambda>c r. r) []
       [''-T'', ''--time'', ''Time'', ''-O'', ''--overtime'', ''Overtime'', ''-W'', ''--weekly'', ''Weekly''] =
     Inr (PluginContext (byte CHR ''T'') ''time'' ''Time'' [] []
            [(byte CHR ''O'', PluginContext (byte CHR ''O'') ''overtime'' ''Overtime'' [] [] []),
             (byte CHR ''W'', PluginContext (byte CHR ''W'') ''weekly'' ''Weekly'' [] [] [])])"
  by (simp add: def_eval)


text \<open>The loop behind the header on a context token.\<close>

lemma parseFlagsAndSubContexts_loop_context:
  assumes "i < length args" and "isContextToken (args ! i)"
  shows "parseFlagsAndSubContexts_loop script args i flags subContexts =
     (case parseSubContext script (drop i args) of
        Inl err \<Rightarrow> Inl (ErrorParsingSubContext err)
      | Inr (subCtx, consumed) \<Rightarrow>
          parseFlagsAndSubContexts_loop script args (i + consumed) flags
            (assign subContexts (Context subCtx) subCtx))"
  using assms by (subst parseFlagsAndSubContexts_loop.simps) simp

text \<open>
  The tokens of \<open>args\<close> from the index \<open>k\<close> on are the flag definitions \<open>defs\<close>, each
  with the number of tokens it takes: none of them starts with a context token, and
  \<^verbatim>\<open>parseFlag\<close> reads each of them as it reads a flag of the top level.
\<close>

fun flag_defs :: "string list \<Rightarrow> nat \<Rightarrow> (Flag \<times> nat) list \<Rightarrow> bool" where
  "flag_defs args k [] = True"
| "flag_defs args k ((flag, n) # defs) =
     (k < length args \<and> \<not> isContextToken (args ! k)
      \<and> parseFlag (drop k args) = Inr (flag, n) \<and> flag_defs args (k + n) defs)"

lemma parseSubContext_loop_defs:
  "flag_defs args k defs \<Longrightarrow>
   parseSubContext_loop args k flags =
   parseSubContext_loop args (k + sum_list (map snd defs)) (flags @ map fst defs)"
proof (induction defs arbitrary: k flags)
  case Nil
  then show ?case by simp
next
  case (Cons d defs)
  obtain flag n where d: "d = (flag, n)"
    by (cases d)
  from Cons.prems d have here: "k < length args" "\<not> isContextToken (args ! k)"
    "parseFlag (drop k args) = Inr (flag, n)" and rest: "flag_defs args (k + n) defs"
    by simp_all
  from here have "parseSubContext_loop args k flags =
      parseSubContext_loop args (k + n) (flags @ [flag])"
    by (subst parseSubContext_loop.simps) simp
  with Cons.IH [OF rest, of "flags @ [flag]"] d show ?case
    by (simp add: add.assoc)
qed

lemma parseSubContext_loop_stops:
  "length args \<le> k \<or> isContextToken (args ! k) \<Longrightarrow>
   parseSubContext_loop args k flags = Inr (flags, k)"
  by (subst parseSubContext_loop.simps) auto

lemma parseSubContext_loop_fails:
  "k < length args \<Longrightarrow> \<not> isContextToken (args ! k) \<Longrightarrow> parseFlag (drop k args) = Inl err
   \<Longrightarrow> parseSubContext_loop args k flags = Inl err"
  by (subst parseSubContext_loop.simps) simp

lemma parseSubContext_loop_result:
  "parseSubContext_loop args k flags = Inr (flags', n) \<Longrightarrow>
   \<exists>defs. flag_defs args k defs \<and> n = k + sum_list (map snd defs)
     \<and> flags' = flags @ map fst defs
     \<and> (length args \<le> n \<or> isContextToken (args ! n))"
proof (induction "length args - k" arbitrary: k flags rule: less_induct)
  case less
  show ?case
  proof (cases "k < length args \<and> \<not> isContextToken (args ! k)")
    case False
    with less.prems have "flags' = flags" "n = k"
      by (auto simp: parseSubContext_loop_stops)
    with False show ?thesis
      by (intro exI [of _ "[]"]) auto
  next
    case True
    with less.prems obtain flag m where
      pf: "parseFlag (drop k args) = Inr (flag, m)" and
      rec: "parseSubContext_loop args (k + m) (flags @ [flag]) = Inr (flags', n)"
      by (subst (asm) parseSubContext_loop.simps) (auto split: sum.splits)
    from pf have "0 < m"
      by (rule parseFlag_consumed)
    with True have "length args - (k + m) < length args - k"
      by arith
    from less.hyps [OF this rec] obtain defs where
      defs: "flag_defs args (k + m) defs" "n = k + m + sum_list (map snd defs)"
        "flags' = (flags @ [flag]) @ map fst defs"
        "length args \<le> n \<or> isContextToken (args ! n)"
      by blast
    with True pf show ?thesis
      by (intro exI [of _ "(flag, m) # defs"]) auto
  qed
qed


lemma parseFlagsAndSubContexts_loop_flag:
  assumes "i < length args" and "\<not> isContextToken (args ! i)"
  shows "parseFlagsAndSubContexts_loop script args i flags subContexts =
     (case parseFlag (drop i args) of
        Inl err \<Rightarrow> Inl (ErrorParsingFlag err)
      | Inr (flag, consumed) \<Rightarrow>
          parseFlagsAndSubContexts_loop script args (i + consumed) (flags @ [flag]) subContexts)"
  using assms by (subst parseFlagsAndSubContexts_loop.simps) simp

text \<open>
  C6, as amended. A sub-context definition has one form: the context token, a long name
  that starts with \<^verbatim>\<open>--\<close>, a third token that is the description whatever it is, and
  then flag definitions up to the end of the arguments or to the first context token where
  a flag definition would start. With fewer than three tokens, without the long name, or
  with a flag definition that fails, the definition is refused. The node has these flags
  and no sub-contexts of its own. Where the loop over the tokens behind the header stands
  on a context token, it reads such a definition, puts the node into the map of the
  definition that is being parsed and goes on behind it; elsewhere it reads a flag.
\<close>

theorem parseSubContext_grammar:
  "(parseSubContext script args = Inr (subCtx, consumed) \<longleftrightarrow>
      3 \<le> length args \<and> 2 \<le> length (args ! 0) \<and> HasPrefix (args ! 1) ''--''
      \<and> (\<exists>defs. flag_defs args 3 defs \<and> consumed = 3 + sum_list (map snd defs)
            \<and> (length args \<le> consumed \<or> isContextToken (args ! consumed))
            \<and> subCtx = PluginContext (byte (args ! 0 ! 1)) (TrimPrefix (args ! 1) ''--'')
                         (args ! 2) script (map fst defs) []))
   \<and> (length args < 3 \<longrightarrow> parseSubContext script args = Inl SubContextNeedsAtLeast)
   \<and> (3 \<le> length args \<longrightarrow> 2 \<le> length (args ! 0) \<longrightarrow> \<not> HasPrefix (args ! 1) ''--''
        \<longrightarrow> parseSubContext script args = Inl (ExpectedLongForSubContext (args ! 1)))
   \<and> (3 \<le> length args \<longrightarrow> 2 \<le> length (args ! 0) \<longrightarrow> HasPrefix (args ! 1) ''--''
        \<longrightarrow> flag_defs args 3 parsed \<longrightarrow> 3 + sum_list (map snd parsed) < length args
        \<longrightarrow> \<not> isContextToken (args ! (3 + sum_list (map snd parsed)))
        \<longrightarrow> parseFlag (drop (3 + sum_list (map snd parsed)) args) = Inl err
        \<longrightarrow> parseSubContext script args = Inl err)
   \<and> (i < length all \<longrightarrow> isContextToken (all ! i)
        \<longrightarrow> parseFlagsAndSubContexts_loop script all i flags subContexts =
            (case parseSubContext script (drop i all) of
               Inl err \<Rightarrow> Inl (ErrorParsingSubContext err)
             | Inr (sub, n) \<Rightarrow>
                 parseFlagsAndSubContexts_loop script all (i + n) flags
                   (assign subContexts (Context sub) sub)))
   \<and> (i < length all \<longrightarrow> \<not> isContextToken (all ! i)
        \<longrightarrow> parseFlagsAndSubContexts_loop script all i flags subContexts =
            (case parseFlag (drop i all) of
               Inl err \<Rightarrow> Inl (ErrorParsingFlag err)
             | Inr (flag, n) \<Rightarrow>
                 parseFlagsAndSubContexts_loop script all (i + n) (flags @ [flag]) subContexts))"
proof -
  have only_if: "parseSubContext script args = Inr (subCtx, consumed) \<Longrightarrow>
      3 \<le> length args \<and> 2 \<le> length (args ! 0) \<and> HasPrefix (args ! 1) ''--''
      \<and> (\<exists>defs. flag_defs args 3 defs \<and> consumed = 3 + sum_list (map snd defs)
            \<and> (length args \<le> consumed \<or> isContextToken (args ! consumed))
            \<and> subCtx = PluginContext (byte (args ! 0 ! 1)) (TrimPrefix (args ! 1) ''--'')
                         (args ! 2) script (map fst defs) [])"
    by (auto simp: parseSubContext_def split: if_splits sum.splits
          dest!: parseSubContext_loop_result)
  have "if": "3 \<le> length args \<Longrightarrow> 2 \<le> length (args ! 0) \<Longrightarrow> HasPrefix (args ! 1) ''--'' \<Longrightarrow>
      flag_defs args 3 defs \<Longrightarrow>
      length args \<le> 3 + sum_list (map snd defs) \<or> isContextToken (args ! (3 + sum_list (map snd defs)))
      \<Longrightarrow> parseSubContext script args =
          Inr (PluginContext (byte (args ! 0 ! 1)) (TrimPrefix (args ! 1) ''--'') (args ! 2) script
                 (map fst defs) [], 3 + sum_list (map snd defs))" for defs
    using parseSubContext_loop_defs [of args 3 defs "[]"]
      parseSubContext_loop_stops [of args "3 + sum_list (map snd defs)" "map fst defs"]
    by (simp add: parseSubContext_def)
  have fails: "3 \<le> length args \<Longrightarrow> 2 \<le> length (args ! 0) \<Longrightarrow> HasPrefix (args ! 1) ''--'' \<Longrightarrow>
      flag_defs args 3 parsed \<Longrightarrow> 3 + sum_list (map snd parsed) < length args \<Longrightarrow>
      \<not> isContextToken (args ! (3 + sum_list (map snd parsed))) \<Longrightarrow>
      parseFlag (drop (3 + sum_list (map snd parsed)) args) = Inl err \<Longrightarrow>
      parseSubContext script args = Inl err"
    using parseSubContext_loop_defs [of args 3 parsed "[]"]
      parseSubContext_loop_fails [of "3 + sum_list (map snd parsed)" args err "map fst parsed"]
    by (simp add: parseSubContext_def)
  have short: "length args < 3 \<Longrightarrow> parseSubContext script args = Inl SubContextNeedsAtLeast"
    by (simp add: parseSubContext_def)
  have nolong: "3 \<le> length args \<Longrightarrow> 2 \<le> length (args ! 0) \<Longrightarrow> \<not> HasPrefix (args ! 1) ''--'' \<Longrightarrow>
      parseSubContext script args = Inl (ExpectedLongForSubContext (args ! 1))"
    by (simp add: parseSubContext_def)
  have conv: "3 \<le> length args \<and> 2 \<le> length (args ! 0) \<and> HasPrefix (args ! 1) ''--''
      \<and> (\<exists>defs. flag_defs args 3 defs \<and> consumed = 3 + sum_list (map snd defs)
            \<and> (length args \<le> consumed \<or> isContextToken (args ! consumed))
            \<and> subCtx = PluginContext (byte (args ! 0 ! 1)) (TrimPrefix (args ! 1) ''--'')
                         (args ! 2) script (map fst defs) [])
      \<Longrightarrow> parseSubContext script args = Inr (subCtx, consumed)"
  proof -
    assume rhs: "3 \<le> length args \<and> 2 \<le> length (args ! 0) \<and> HasPrefix (args ! 1) ''--''
      \<and> (\<exists>defs. flag_defs args 3 defs \<and> consumed = 3 + sum_list (map snd defs)
            \<and> (length args \<le> consumed \<or> isContextToken (args ! consumed))
            \<and> subCtx = PluginContext (byte (args ! 0 ! 1)) (TrimPrefix (args ! 1) ''--'')
                         (args ! 2) script (map fst defs) [])"
    then obtain defs where d: "flag_defs args 3 defs" "consumed = 3 + sum_list (map snd defs)"
      "length args \<le> consumed \<or> isContextToken (args ! consumed)"
      "subCtx = PluginContext (byte (args ! 0 ! 1)) (TrimPrefix (args ! 1) ''--'')
                  (args ! 2) script (map fst defs) []"
      by blast
    from rhs have h: "3 \<le> length args" "2 \<le> length (args ! 0)" "HasPrefix (args ! 1) ''--''"
      by simp_all
    from "if" [OF h d(1) d(3) [unfolded d(2)]] d(2,4) show ?thesis
      by simp
  qed
  have ctx: "i < length all \<Longrightarrow> isContextToken (all ! i) \<Longrightarrow>
      parseFlagsAndSubContexts_loop script all i flags subContexts =
        (case parseSubContext script (drop i all) of
           Inl err \<Rightarrow> Inl (ErrorParsingSubContext err)
         | Inr (sub, n) \<Rightarrow>
             parseFlagsAndSubContexts_loop script all (i + n) flags
               (assign subContexts (Context sub) sub))"
    by (rule parseFlagsAndSubContexts_loop_context)
  have flg: "i < length all \<Longrightarrow> \<not> isContextToken (all ! i) \<Longrightarrow>
      parseFlagsAndSubContexts_loop script all i flags subContexts =
        (case parseFlag (drop i all) of
           Inl err \<Rightarrow> Inl (ErrorParsingFlag err)
         | Inr (flag, n) \<Rightarrow>
             parseFlagsAndSubContexts_loop script all (i + n) (flags @ [flag]) subContexts)"
    by (rule parseFlagsAndSubContexts_loop_flag)
  have eq: "parseSubContext script args = Inr (subCtx, consumed) \<longleftrightarrow>
      3 \<le> length args \<and> 2 \<le> length (args ! 0) \<and> HasPrefix (args ! 1) ''--''
      \<and> (\<exists>defs. flag_defs args 3 defs \<and> consumed = 3 + sum_list (map snd defs)
            \<and> (length args \<le> consumed \<or> isContextToken (args ! consumed))
            \<and> subCtx = PluginContext (byte (args ! 0 ! 1)) (TrimPrefix (args ! 1) ''--'')
                         (args ! 2) script (map fst defs) [])"
    by (rule iffI) (erule only_if, erule conv)
  show ?thesis
    apply (intro conjI impI)
         apply (rule eq)
        apply (erule short)
       apply (erule (2) nolong)
      apply (erule (6) fails)
     apply (erule (1) ctx)
    apply (erule (1) flg)
    done
qed


theorem parseSubContext_grammar_witness:
  "flag_defs [''-O'', ''--overtime'', ''Overtime'', ''-s'', ''--start'', ''time'', ''Start time'',
              ''-W'', ''--weekly'', ''Weekly''] 3
     [(\<lparr>Short = byte CHR ''s'', Long = ''start'', ArgName = ''time'',
        Description = ''Start time''\<rparr>, 4)]
   \<and> parseSubContext []
         [''-O'', ''--overtime'', ''Overtime'', ''-s'', ''--start'', ''time'', ''Start time'',
          ''-W'', ''--weekly'', ''Weekly''] =
       Inr (PluginContext (byte CHR ''O'') ''overtime'' ''Overtime'' []
              [\<lparr>Short = byte CHR ''s'', Long = ''start'', ArgName = ''time'',
                Description = ''Start time''\<rparr>] [], 7)
   \<and> parseSubContext [] [''-O'', ''Overtime''] = Inl SubContextNeedsAtLeast
   \<and> parseSubContext [] [''-O'', ''Overtime'', ''-s'', ''--start'', ''Start''] =
       Inl (ExpectedLongForSubContext ''Overtime'')
   \<and> parseSubContext [] [''-O'', ''--overtime'', ''Overtime'', ''garbage'', ''text''] =
       Inl FlagMustHaveName
   \<and> parsePluginDefinition (\<lambda>c r. r) []
         [''-T'', ''--time'', ''Time'', ''-O'', ''--overtime'', ''-W'', ''--weekly'', ''Weekly''] =
       Inr (PluginContext (byte CHR ''T'') ''time'' ''Time'' [] []
              [(byte CHR ''O'',
                PluginContext (byte CHR ''O'') ''overtime'' ''-W'' []
                  [\<lparr>Short = 0, Long = ''weekly'', ArgName = [], Description = ''Weekly''\<rparr>] [])])"
  using parseSubContext_grammar [where script = "[]"
          and args = "[''-O'', ''--overtime'', ''Overtime'', ''-s'', ''--start'', ''time'',
            ''Start time'', ''-W'', ''--weekly'', ''Weekly'']"
          and consumed = 7
          and subCtx = "PluginContext (byte CHR ''O'') ''overtime'' ''Overtime'' []
              [\<lparr>Short = byte CHR ''s'', Long = ''start'', ArgName = ''time'',
                Description = ''Start time''\<rparr>] []"]
        parseSubContext_grammar [where script = "[]" and args = "[''-O'', ''Overtime'']"]
        parseSubContext_grammar [where script = "[]"
          and args = "[''-O'', ''Overtime'', ''-s'', ''--start'', ''Start'']"]
        parseSubContext_grammar [where script = "[]"
          and args = "[''-O'', ''--overtime'', ''Overtime'', ''garbage'', ''text'']"
          and parsed = "[]" and err = FlagMustHaveName]
        parseSubContext_grammar [where script = "[]"
          and all = "[''-O'', ''--overtime'', ''-W'', ''--weekly'', ''Weekly'']"
          and i = 0 and flags = "[]" and subContexts = "[]"]
  by (simp add: def_eval)

section \<open>Dispatch to a plugin\<close>

text \<open>
  \<^verbatim>\<open>ExecutePlugin\<close> talks to the operating system, which the model takes as parameters:
  \<open>stat\<close> says whether \<^verbatim>\<open>os.Stat\<close> finds the path, \<open>environ\<close> is \<^verbatim>\<open>os.Environ()\<close>, and
  \<open>run\<close> is \<^verbatim>\<open>cmd.Run()\<close> on the script, its arguments and its environment: no error,
  an \<^verbatim>\<open>*exec.ExitError\<close> with its exit code, or another error. The flags are listed in
  the order in which \<^verbatim>\<open>range\<close> visits the map.
\<close>

datatype RunOutcome = RunOk | ExitError int | RunFailed

definition ExecutePlugin ::
  "(string \<Rightarrow> bool) \<Rightarrow> (string \<Rightarrow> string list \<Rightarrow> string list \<Rightarrow> RunOutcome) \<Rightarrow> string list
     \<Rightarrow> PluginContext \<Rightarrow> (string \<times> string) list \<Rightarrow> string list \<Rightarrow> int" where
  "ExecutePlugin stat run environ ctx flags args =
     (if Script ctx = [] then 1
      else if \<not> stat (Script ctx) then 1
      else
        (case run (Script ctx) args
                (environ @ map (\<lambda>(flagName, flagValue). flagName @ ''='' @ flagValue) flags) of
           RunOk \<Rightarrow> 0
         | ExitError code \<Rightarrow> code
         | RunFailed \<Rightarrow> 1))"

text \<open>
  C8 as stated fails: the exit code for a missing script is 1, and a child that exits with
  1 gives the same return value.
\<close>

theorem ExecutePlugin_exit_counterexample:
  "ExecutePlugin (\<lambda>path. False) (\<lambda>path args env. RunOk) []
       (PluginContext (byte CHR ''T'') ''test'' [] ''/nonexistent/script.sh'' [] []) [] [] = 1
   \<and> ExecutePlugin (\<lambda>path. True) (\<lambda>path args env. ExitError 1) []
       (PluginContext (byte CHR ''T'') ''test'' [] ''/tmp/test.sh'' [] []) [] [] = 1"
  by (simp add: ExecutePlugin_def)

text \<open>
  C8, as amended. An empty script path and a path that does not exist yield the exit code
  1; the exit code of a child that ran is returned as it is, and 0 when it ran without
  error.
\<close>

theorem ExecutePlugin_exit:
  "(Script ctx = [] \<longrightarrow> ExecutePlugin stat run environ ctx flags args = 1)
   \<and> (\<not> stat (Script ctx) \<longrightarrow> ExecutePlugin stat run environ ctx flags args = 1)
   \<and> (Script ctx \<noteq> [] \<longrightarrow> stat (Script ctx)
        \<longrightarrow> run (Script ctx) args
              (environ @ map (\<lambda>(flagName, flagValue). flagName @ ''='' @ flagValue) flags)
            = ExitError code
        \<longrightarrow> ExecutePlugin stat run environ ctx flags args = code)
   \<and> (Script ctx \<noteq> [] \<longrightarrow> stat (Script ctx)
        \<longrightarrow> run (Script ctx) args
              (environ @ map (\<lambda>(flagName, flagValue). flagName @ ''='' @ flagValue) flags)
            = RunOk
        \<longrightarrow> ExecutePlugin stat run environ ctx flags args = 0)"
  by (simp add: ExecutePlugin_def)

theorem ExecutePlugin_exit_witness:
  "ExecutePlugin (\<lambda>path. True) (\<lambda>path args env. ExitError 42) []
       (PluginContext (byte CHR ''T'') ''test'' [] ''/tmp/test.sh'' [] []) [] [] = 42
   \<and> ExecutePlugin (\<lambda>path. True) (\<lambda>path args env. RunOk) []
       (PluginContext (byte CHR ''T'') ''test'' [] ''/tmp/test.sh'' [] []) [] [] = 0
   \<and> ExecutePlugin (\<lambda>path. True) (\<lambda>path args env. RunOk) []
       (PluginContext (byte CHR ''T'') ''test'' [] [] [] []) [] [] = 1
   \<and> ExecutePlugin (\<lambda>path. False) (\<lambda>path args env. RunOk) []
       (PluginContext (byte CHR ''T'') ''test'' [] ''/nonexistent/script.sh'' [] []) [] [] = 1"
  using ExecutePlugin_exit [of "PluginContext (byte CHR ''T'') ''test'' [] ''/tmp/test.sh'' [] []"
          "\<lambda>path. True" "\<lambda>path args env. ExitError 42" "[]" "[]" "[]" 42]
        ExecutePlugin_exit [of "PluginContext (byte CHR ''T'') ''test'' [] ''/tmp/test.sh'' [] []"
          "\<lambda>path. True" "\<lambda>path args env. RunOk" "[]" "[]" "[]" 0]
        ExecutePlugin_exit [of "PluginContext (byte CHR ''T'') ''test'' [] [] [] []"
          "\<lambda>path. True" "\<lambda>path args env. RunOk" "[]" "[]" "[]" 0]
        ExecutePlugin_exit [of "PluginContext (byte CHR ''T'') ''test'' [] ''/nonexistent/script.sh'' [] []"
          "\<lambda>path. False" "\<lambda>path args env. RunOk" "[]" "[]" "[]" 0]
  by simp

end
